theory Spec2Isabelle
  imports Main "HOL-Library.Sublist"
begin

section \<open>Strings, as the parsers use them\<close>

text \<open>
  A Python string is modelled as a \<^typ>\<open>string\<close> whose characters are the code points
  below 256, one \<^typ>\<open>char\<close> per code point, so that \<open>len\<close> is \<^const>\<open>length\<close>.
  The character classes below are Python's, restricted to that range.
\<close>

datatype py_error = IndexError | ValueError | IOError

definition bind_err :: "py_error + 'a \<Rightarrow> ('a \<Rightarrow> py_error + 'b) \<Rightarrow> py_error + 'b" where
  "bind_err r f = (case r of Inl e \<Rightarrow> Inl e | Inr v \<Rightarrow> f v)"

definition py_get :: "'a list \<Rightarrow> nat \<Rightarrow> py_error + 'a" where
  \<comment> \<open>\<open>xs[i]\<close> for a non-negative index: IndexError past the end.\<close>
  "py_get xs i = (if i < length xs then Inr (xs ! i) else Inl IndexError)"

definition is_space :: "char \<Rightarrow> bool" where
  \<comment> \<open>\<open>str.isspace\<close> on one character: TAB..CR, FS..US, SPACE, NEL, NBSP.\<close>
  "is_space c = ((of_char c :: nat) \<in> {9, 10, 11, 12, 13, 28, 29, 30, 31, 32, 133, 160})"

definition strip :: "string \<Rightarrow> string" where
  \<comment> \<open>\<open>s.strip()\<close>\<close>
  "strip s = rev (dropWhile is_space (rev (dropWhile is_space s)))"

definition is_digit :: "char \<Rightarrow> bool" where
  \<comment> \<open>the regular expression class \<open>\d\<close>: the decimal digits\<close>
  "is_digit c = (48 \<le> (of_char c :: nat) \<and> (of_char c :: nat) \<le> 57)"

definition digit_val :: "char \<Rightarrow> nat" where
  "digit_val c = of_char c - 48"

definition int_of_digits :: "string \<Rightarrow> nat" where
  "int_of_digits s = foldl (\<lambda>a c. 10 * a + digit_val c) 0 s"

definition int_max_str_digits :: nat where
  \<comment> \<open>\<open>sys.int_info.default_max_str_digits\<close>, the limit of CPython 3.11 and later on the
      number of digits \<open>int\<close> converts\<close>
  "int_max_str_digits = 4300"

definition py_int :: "string \<Rightarrow> py_error + int" where
  \<comment> \<open>\<open>int(s)\<close> on the strings the parsers pass to it, which hold digit characters only
      (every call is behind \<open>isdigit\<close> or a \<open>\d\<close> match): ValueError when a character is
      not a decimal digit, ValueError when there are more than 4300 digits (leading zeros
      count), the decimal value otherwise.\<close>
  "py_int s =
     (if strip s \<noteq> [] \<and> list_all is_digit (strip s) then
        (if length (strip s) > int_max_str_digits then Inl ValueError
         else Inr (int (int_of_digits (strip s))))
      else Inl ValueError)"

function str_replace :: "string \<Rightarrow> string \<Rightarrow> string \<Rightarrow> string" where
  \<comment> \<open>\<open>s.replace(old, new)\<close> for a non-empty \<open>old\<close>: left to right, non-overlapping.\<close>
  "str_replace old new [] = []"
| "str_replace old new (c # cs) =
     (if prefix old (c # cs) then new @ str_replace old new (drop (length old - 1) cs)
      else c # str_replace old new cs)"
  by pat_completeness auto
termination
  by (relation "measure (\<lambda>(old, new, s). length s)") auto

definition chomp :: "string \<Rightarrow> string" where
  \<comment> \<open>\<open>$\<close> also matches just before a newline that ends the string.\<close>
  "chomp s = (if s \<noteq> [] \<and> last s = CHR 0x0A then butlast s else s)"

definition re_match_digits :: "string \<Rightarrow> bool" where
  \<comment> \<open>\<open>re.match(r'^\d+$', s)\<close>\<close>
  "re_match_digits s = (chomp s \<noteq> [] \<and> list_all is_digit (chomp s))"

definition re_match_time :: "string \<Rightarrow> bool" where
  \<comment> \<open>\<open>re.match(r'^\d{1,2}:\d{2}$', s)\<close>\<close>
  "re_match_time s =
     (case chomp s of
        [a, c, p, q] \<Rightarrow> is_digit a \<and> c = CHR '':'' \<and> is_digit p \<and> is_digit q
      | [a, b, c, p, q] \<Rightarrow> is_digit a \<and> is_digit b \<and> c = CHR '':'' \<and> is_digit p \<and> is_digit q
      | _ \<Rightarrow> False)"

definition py_isdigit_char :: "char \<Rightarrow> bool" where
  \<comment> \<open>the characters \<open>str.isdigit\<close> accepts: the decimal digits and the superscripts 2, 3, 1\<close>
  "py_isdigit_char c = (is_digit c \<or> (of_char c :: nat) \<in> {178, 179, 185})"

definition str_isdigit :: "string \<Rightarrow> bool" where
  "str_isdigit s = (s \<noteq> [] \<and> list_all py_isdigit_char s)"

definition is_serial :: "string \<Rightarrow> py_error + bool" where
  \<comment> \<open>\<open>text.isdigit() and 1 <= int(text) <= 10\<close>\<close>
  "is_serial t = (if str_isdigit t then bind_err (py_int t) (\<lambda>n. Inr (1 \<le> n \<and> n \<le> 10))
                  else Inr False)"

fun contains :: "string \<Rightarrow> string \<Rightarrow> bool" where
  \<comment> \<open>\<open>sub in s\<close>\<close>
  "contains sub [] = (sub = [])"
| "contains sub (c # cs) = (prefix sub (c # cs) \<or> contains sub cs)"

definition is_upper :: "char \<Rightarrow> bool" where
  "is_upper c = (let n = (of_char c :: nat)
                 in (65 \<le> n \<and> n \<le> 90) \<or> (192 \<le> n \<and> n \<le> 214) \<or> (216 \<le> n \<and> n \<le> 222))"

definition is_lower :: "char \<Rightarrow> bool" where
  "is_lower c = (let n = (of_char c :: nat)
                 in (97 \<le> n \<and> n \<le> 122) \<or> n = 170 \<or> n = 181 \<or> n = 186
                    \<or> (223 \<le> n \<and> n \<le> 246) \<or> (248 \<le> n \<and> n \<le> 255))"

definition str_isupper :: "string \<Rightarrow> bool" where
  \<comment> \<open>\<open>s.isupper()\<close>: no lowercase character and at least one uppercase one\<close>
  "str_isupper s = (list_all (\<lambda>c. \<not> is_lower c) s \<and> list_ex is_upper s)"

definition upper_char :: "char \<Rightarrow> string" where
  \<comment> \<open>\<open>c.upper()\<close>: the sharp s becomes two letters; the capitals of the micro sign and of
      y with diaeresis lie beyond code point 255 and the character is left as it is (neither
      it nor its capital occurs in a rank marker)\<close>
  "upper_char c =
     (let n = (of_char c :: nat)
      in if 97 \<le> n \<and> n \<le> 122 then [char_of (n - 32)]
         else if n = 223 then ''SS''
         else if 224 \<le> n \<and> n \<le> 254 \<and> n \<noteq> 247 then [char_of (n - 32)]
         else [c])"

definition py_upper :: "string \<Rightarrow> string" where
  \<comment> \<open>\<open>s.upper()\<close>\<close>
  "py_upper s = concat (map upper_char s)"

section \<open>Loops\<close>

fun fold_err :: "('s \<Rightarrow> 'a \<Rightarrow> py_error + 's) \<Rightarrow> 's \<Rightarrow> 'a list \<Rightarrow> py_error + 's" where
  \<comment> \<open>a \<open>for\<close> loop whose body may raise\<close>
  "fold_err f s [] = Inr s"
| "fold_err f s (x # xs) = bind_err (f s x) (\<lambda>s'. fold_err f s' xs)"

datatype 's loop_step = Continue 's | Break 's

fun loop_err :: "('s \<Rightarrow> 'a \<Rightarrow> py_error + 's loop_step) \<Rightarrow> 's \<Rightarrow> 'a list \<Rightarrow> py_error + 's" where
  \<comment> \<open>a \<open>for\<close> loop whose body may raise or \<open>break\<close>\<close>
  "loop_err f s [] = Inr s"
| "loop_err f s (x # xs) =
     (case f s x of
        Inl e \<Rightarrow> Inl e
      | Inr (Break s') \<Rightarrow> Inr s'
      | Inr (Continue s') \<Rightarrow> loop_err f s' xs)"

fun fold_keep :: "('s \<Rightarrow> 'a \<Rightarrow> py_error + 's) \<Rightarrow> 's \<Rightarrow> 'a list \<Rightarrow> 's" where
  \<comment> \<open>a \<open>for\<close> loop inside \<open>try ... except Exception\<close>, its state read after the
      \<open>except\<close>: an exception ends the loop and what was built before it stays\<close>
  "fold_keep f s [] = s"
| "fold_keep f s (x # xs) = (case f s x of Inl e \<Rightarrow> s | Inr s' \<Rightarrow> fold_keep f s' xs)"

section \<open>Records\<close>

record soldier =
  name :: string
  sit_up_reps :: int
  push_up_reps :: int
  run_time :: string

record method_result =
  soldiers :: "soldier list"
  method_name :: string  \<comment> \<open>the key \<open>'method'\<close>\<close>

record final_result = method_result +
  total_soldiers :: nat
  success :: bool

record 'b text_item =
  item_text :: string
  bbox :: 'b

definition empty_soldier :: soldier where
  "empty_soldier = \<lparr> name = [], sit_up_reps = 0, push_up_reps = 0, run_time = [] \<rparr>"

datatype ippt_result = Result final_result | ErrorResult py_error
  \<comment> \<open>what \<open>extract_ippt_data\<close> of foolproof\_ocr\_parser.py returns: the merged result, or
      \<open>{'soldiers': [], 'error': str(e)}\<close>\<close>

definition result_soldiers :: "ippt_result \<Rightarrow> soldier list" where
  \<comment> \<open>the value under the key \<open>'soldiers'\<close>\<close>
  "result_soldiers r = (case r of Result f \<Rightarrow> soldiers f | ErrorResult e \<Rightarrow> [])"

section \<open>The Positional Extractor\<close>

text \<open>
  \<open>_extract_soldier_at_position\<close> of foolproof\_ocr\_parser.py and of
  api/foolproof\_ocr\_endpoint.py. The block that reads the name is also the one of
  working\_manual\_parser.py and integrate\_working\_parser.py.
\<close>

datatype serial = SerialStr string | SerialInt int
  \<comment> \<open>the \<open>serial\<close> argument: a string from the table of positions,
      an \<open>int\<close> from \<open>_serial_number_strategy\<close>\<close>

definition soldier_positions :: "(nat \<times> string) list" where
  "soldier_positions =
     [(23, ''1''), (33, ''2''), (42, ''3''), (51, ''4''), (60, ''5''),
      (69, ''6''), (78, ''7''), (87, ''8''), (96, ''9''), (105, ''10'')]"

definition read_name :: "string list \<Rightarrow> nat \<Rightarrow> soldier \<Rightarrow> py_error + soldier" where
  "read_name lines pos sd =
     (if pos + 2 < length lines then
        bind_err (py_get lines (pos + 2)) (\<lambda>l.
          let name_line = strip l
          in Inr (sd\<lparr>name := strip (str_replace ''PTE'' [] name_line)\<rparr>))
      else Inr sd)"

definition read_offset :: "string list \<Rightarrow> nat \<Rightarrow> soldier \<Rightarrow> nat \<times> string \<Rightarrow> py_error + soldier" where
  \<comment> \<open>the body of \<open>for offset, data_type in offsets\<close>\<close>
  "read_offset lines pos sd od =
     (case od of (offset, data_type) \<Rightarrow>
        if pos + offset < length lines then
          bind_err (py_get lines (pos + offset)) (\<lambda>l.
            let line = strip l
            in if data_type = ''situp'' \<and> re_match_digits line then
                 bind_err (py_int line) (\<lambda>n. Inr (sd\<lparr>sit_up_reps := n\<rparr>))
               else if data_type = ''pushup'' \<and> re_match_digits line then
                 bind_err (py_int line) (\<lambda>n. Inr (sd\<lparr>push_up_reps := n\<rparr>))
               else if data_type = ''run'' \<and> re_match_time line then
                 Inr (sd\<lparr>run_time := line\<rparr>)
               else Inr sd)
        else Inr sd)"

definition extract_soldier_at_position ::
  "string list \<Rightarrow> nat \<Rightarrow> serial \<Rightarrow> py_error + soldier option" where
  "extract_soldier_at_position lines pos serial =
     bind_err (read_name lines pos empty_soldier) (\<lambda>sd.
       let offsets = (if serial = SerialStr ''1''
                      then [(7, ''situp''), (8, ''pushup''), (9, ''run'')]
                      else [(6, ''situp''), (7, ''pushup''), (8, ''run'')])
       in bind_err (fold_err (read_offset lines pos) sd offsets) (\<lambda>sd.
            Inr (if name sd \<noteq> [] then Some sd else None)))"

definition working_line_based_strategy :: "string list \<Rightarrow> py_error + soldier list" where
  "working_line_based_strategy lines =
     fold_err (\<lambda>soldiers ps. case ps of (pos, serial) \<Rightarrow>
        if pos < length lines then
          bind_err (extract_soldier_at_position lines pos (SerialStr serial)) (\<lambda>soldier.
            case soldier of Some sd \<Rightarrow> Inr (soldiers @ [sd]) | None \<Rightarrow> Inr soldiers)
        else Inr soldiers) [] soldier_positions"

section \<open>The Pattern Extractor of foolproof\_ocr\_parser.py\<close>

definition serial_number_strategy :: "string list \<Rightarrow> py_error + soldier list" where
  "serial_number_strategy lines =
     fold_err (\<lambda>soldiers i.
        bind_err (py_get lines i) (\<lambda>line.
          bind_err (is_serial (strip line)) (\<lambda>b.
            if b then
              bind_err (py_int (strip line)) (\<lambda>serial.
                bind_err (extract_soldier_at_position lines i (SerialInt serial)) (\<lambda>soldier.
                  case soldier of Some sd \<Rightarrow> Inr (soldiers @ [sd]) | None \<Rightarrow> Inr soldiers))
            else Inr soldiers))) [] [0..<length lines]"

definition rank_markers :: "string list" where
  "rank_markers = [''PTE'', ''LTA'', ''CPL'', ''SGT'', ''2LT'', ''CPT'']"

definition around_name_step :: "string list \<Rightarrow> soldier \<Rightarrow> nat \<Rightarrow> py_error + soldier" where
  \<comment> \<open>the body of the loop of \<open>_extract_data_around_name\<close>\<close>
  "around_name_step lines sd i =
     bind_err (py_get lines i) (\<lambda>l.
       let line = strip l
       in if re_match_digits line then
            bind_err (py_int line) (\<lambda>num.
              if 5 \<le> num \<and> num \<le> 80 \<and> sit_up_reps sd = 0 then Inr (sd\<lparr>sit_up_reps := num\<rparr>)
              else if num \<le> 2000 \<and> push_up_reps sd = 0 then Inr (sd\<lparr>push_up_reps := num\<rparr>)
              else Inr sd)
          else if re_match_time line then
            (if run_time sd = [] then Inr (sd\<lparr>run_time := line\<rparr>) else Inr sd)
          else Inr sd)"

definition extract_data_around_name :: "string list \<Rightarrow> nat \<Rightarrow> py_error + soldier option" where
  \<comment> \<open>the loop runs over \<open>range(max(0, name_index - 5), min(len(lines), name_index + 15))\<close>\<close>
  "extract_data_around_name lines name_index =
     bind_err (py_get lines name_index) (\<lambda>l.
       bind_err (fold_err (around_name_step lines)
                   (empty_soldier\<lparr>name := strip (str_replace ''PTE'' [] l)\<rparr>)
                   [name_index - 5..<min (length lines) (name_index + 15)]) (\<lambda>sd.
         Inr (if sit_up_reps sd > 0 \<or> run_time sd \<noteq> [] then Some sd else None)))"

definition name_based_strategy :: "string list \<Rightarrow> py_error + soldier list" where
  "name_based_strategy lines =
     fold_err (\<lambda>found i.
        bind_err (py_get lines i) (\<lambda>line.
          if list_ex (\<lambda>rank. contains rank (py_upper line)) rank_markers then
            bind_err (extract_data_around_name lines i) (\<lambda>soldier.
              case soldier of Some sd \<Rightarrow> Inr (found @ [sd]) | None \<Rightarrow> Inr found)
          else Inr found)) [] [0..<length lines]"

definition performance_context_step ::
  "string list \<Rightarrow> soldier \<Rightarrow> nat \<Rightarrow> py_error + soldier loop_step" where
  \<comment> \<open>the body of the loop of \<open>_extract_from_performance_context\<close>\<close>
  "performance_context_step lines sd i =
     bind_err (py_get lines i) (\<lambda>l.
       let line = strip l
       in if re_match_digits line then
            bind_err (py_int line) (\<lambda>num.
              if 5 \<le> num \<and> num \<le> 80 \<and> sit_up_reps sd = 0 then
                Inr (Continue (sd\<lparr>sit_up_reps := num\<rparr>))
              else if num \<le> 2000 \<and> push_up_reps sd = 0 then
                Inr (Continue (sd\<lparr>push_up_reps := num\<rparr>))
              else Inr (Continue sd))
          else if contains ''PTE'' line \<or> (str_isupper line \<and> length line > 3) then
            Inr (Break (sd\<lparr>name := strip (str_replace ''PTE'' [] line)\<rparr>))
          else Inr (Continue sd))"

definition extract_from_performance_context ::
  "string list \<Rightarrow> nat \<Rightarrow> py_error + soldier option" where
  \<comment> \<open>\<open>range(run_index - 1, max(0, run_index - 10), -1)\<close> runs from \<open>run_index - 1\<close> down to
      \<open>max(0, run_index - 10) + 1\<close>\<close>
  "extract_from_performance_context lines run_index =
     bind_err (py_get lines run_index) (\<lambda>raw.
       bind_err (loop_err (performance_context_step lines) (empty_soldier\<lparr>run_time := raw\<rparr>)
                   (rev [Suc (run_index - 10)..<run_index])) (\<lambda>sd.
         Inr (if name sd \<noteq> [] then Some sd else None)))"

definition performance_data_strategy :: "string list \<Rightarrow> py_error + soldier list" where
  "performance_data_strategy lines =
     fold_err (\<lambda>found i.
        bind_err (py_get lines i) (\<lambda>line.
          if re_match_time (strip line) then
            bind_err (extract_from_performance_context lines i) (\<lambda>soldier.
              case soldier of Some sd \<Rightarrow> Inr (found @ [sd]) | None \<Rightarrow> Inr found)
          else Inr found)) [] [0..<length lines]"

definition enhanced_pattern_matching :: "string list \<Rightarrow> py_error + soldier list" where
  \<comment> \<open>the four strategies run, in this order, when the list \<open>strategies\<close> is built; the
      two nested loops that follow are one loop over the four results in a row\<close>
  "enhanced_pattern_matching lines =
     bind_err (working_line_based_strategy lines) (\<lambda>s1.
       bind_err (serial_number_strategy lines) (\<lambda>s2.
         bind_err (name_based_strategy lines) (\<lambda>s3.
           bind_err (performance_data_strategy lines) (\<lambda>s4.
             Inr (foldl (\<lambda>all_soldiers soldier.
                     if name soldier \<noteq> [] \<and> soldier \<notin> set all_soldiers
                     then all_soldiers @ [soldier] else all_soldiers)
                   [] (s1 @ s2 @ s3 @ s4))))))"

section \<open>The Azure method of foolproof\_ocr\_parser.py\<close>

definition nearby_data_step ::
  "'b text_item list \<Rightarrow> soldier \<Rightarrow> nat \<Rightarrow> py_error + soldier loop_step" where
  \<comment> \<open>the body of the loop of \<open>_extract_nearby_data\<close>\<close>
  "nearby_data_step all_text sd i =
     bind_err (py_get all_text i) (\<lambda>item.
       let text = strip (item_text item)
       in bind_err (is_serial text) (\<lambda>b.
            if b then Inr (Break sd)
            else if contains ''PTE'' text \<or> (str_isupper text \<and> length text > 3) then
              (if name sd = [] then
                 Inr (Continue (sd\<lparr>name := strip (str_replace ''PTE'' [] text)\<rparr>))
               else Inr (Continue sd))
            else if re_match_digits text then
              bind_err (py_int text) (\<lambda>num.
                if 5 \<le> num \<and> num \<le> 80 \<and> sit_up_reps sd = 0 then
                  Inr (Continue (sd\<lparr>sit_up_reps := num\<rparr>))
                else if num \<le> 2000 \<and> push_up_reps sd = 0 then
                  Inr (Continue (sd\<lparr>push_up_reps := num\<rparr>))
                else Inr (Continue sd))
            else if re_match_time text then
              (if run_time sd = [] then Inr (Continue (sd\<lparr>run_time := text\<rparr>))
               else Inr (Continue sd))
            else Inr (Continue sd)))"

definition extract_nearby_data ::
  "'b text_item list \<Rightarrow> nat \<Rightarrow> int \<Rightarrow> py_error + soldier option" where
  "extract_nearby_data all_text index serial =
     (let search_range = min (index + 20) (length all_text)
      in bind_err (loop_err (nearby_data_step all_text) empty_soldier [index + 1..<search_range])
           (\<lambda>sd. Inr (if name sd \<noteq> [] then Some sd else None)))"

definition extract_soldiers_from_text :: "'b text_item list \<Rightarrow> py_error + soldier list" where
  "extract_soldiers_from_text all_text =
     fold_err (\<lambda>found i.
        bind_err (py_get all_text i) (\<lambda>item.
          let text = strip (item_text item)
          in bind_err (is_serial text) (\<lambda>b.
               if b then
                 bind_err (py_int text) (\<lambda>serial_num.
                   bind_err (extract_nearby_data all_text i serial_num) (\<lambda>soldier.
                     case soldier of
                       Some sd \<Rightarrow> if name sd \<noteq> [] then Inr (found @ [sd]) else Inr found
                     | None \<Rightarrow> Inr found))
               else Inr found))) [] [0..<length all_text]"

section \<open>The fallback method of foolproof\_ocr\_parser.py\<close>

definition block_step :: "soldier \<Rightarrow> string \<Rightarrow> py_error + soldier" where
  \<comment> \<open>the body of the loop of \<open>_extract_from_block\<close>\<close>
  "block_step sd l =
     (let line = strip l
      in if contains ''PTE'' line \<or> (str_isupper line \<and> length line > 3) then
           Inr (sd\<lparr>name := strip (str_replace ''PTE'' [] line)\<rparr>)
         else if re_match_digits line then
           bind_err (py_int line) (\<lambda>num.
             if 5 \<le> num \<and> num \<le> 80 \<and> sit_up_reps sd = 0 then Inr (sd\<lparr>sit_up_reps := num\<rparr>)
             else if num \<le> 2000 \<and> push_up_reps sd = 0 then Inr (sd\<lparr>push_up_reps := num\<rparr>)
             else Inr sd)
         else if re_match_time line then Inr (sd\<lparr>run_time := line\<rparr>)
         else Inr sd)"

definition extract_from_block :: "string list \<Rightarrow> nat \<Rightarrow> py_error + soldier option" where
  "extract_from_block block start_line =
     bind_err (fold_err block_step empty_soldier block) (\<lambda>sd.
       Inr (if name sd \<noteq> [] \<and> (sit_up_reps sd > 0 \<or> run_time sd \<noteq> []) then Some sd
            else None))"

definition aggressive_extraction :: "string list \<Rightarrow> py_error + soldier list" where
  \<comment> \<open>\<open>range(len(lines) - 20)\<close> is empty when there are 20 lines or fewer; the block is
      \<open>lines[start_line:start_line + 20]\<close>; the result is \<open>soldiers[:10]\<close>\<close>
  "aggressive_extraction lines =
     bind_err
       (fold_err (\<lambda>found start_line.
          let block = take 20 (drop start_line lines)
          in bind_err (extract_from_block block start_line) (\<lambda>soldier.
               case soldier of
                 Some sd \<Rightarrow> if sd \<notin> set found then Inr (found @ [sd]) else Inr found
               | None \<Rightarrow> Inr found)) [] [0..<length lines - 20])
       (\<lambda>found. Inr (take 10 found))"

section \<open>The Reconciler of foolproof\_ocr\_parser.py\<close>

definition validate_soldier_data :: "soldier \<Rightarrow> bool" where
  "validate_soldier_data s =
     (if name s = [] \<or> length (name s) < 2 then False
      else if \<not> (sit_up_reps s > 0 \<or> push_up_reps s > 0 \<or> run_time s \<noteq> []) then False
      else if sit_up_reps s > 200 then False
      else if push_up_reps s > 2000 then False
      else True)"

definition accept_soldier ::
  "(soldier \<Rightarrow> bool) \<Rightarrow> soldier list \<times> string set \<Rightarrow> soldier \<Rightarrow> soldier list \<times> string set" where
  \<comment> \<open>the body of the innermost loop: the state is \<open>(all_soldiers, seen_names)\<close>\<close>
  "accept_soldier valid st s =
     (case st of (all_soldiers, seen_names) \<Rightarrow>
        if name s \<noteq> [] \<and> name s \<notin> seen_names then
          (if valid s then (all_soldiers @ [s], insert (name s) seen_names)
           else (all_soldiers, seen_names))
        else (all_soldiers, seen_names))"

definition scan_results ::
  "method_result list \<Rightarrow> soldier list \<times> string set \<Rightarrow> string \<Rightarrow> soldier list \<times> string set" where
  \<comment> \<open>\<open>for result in results: if result.get('method') == method: for soldier in ...\<close>\<close>
  "scan_results results st m =
     foldl (\<lambda>st r. if method_name r = m then foldl (accept_soldier validate_soldier_data) st (soldiers r)
                    else st) st results"

definition method_priority :: "string list" where
  "method_priority = [''azure_ocr'', ''pattern_based'', ''fallback'']"

definition merged_soldiers :: "method_result list \<Rightarrow> soldier list" where
  \<comment> \<open>\<open>all_soldiers\<close> when the loop over \<open>method_priority\<close> ends, before the cut to 10\<close>
  "merged_soldiers results = fst (foldl (scan_results results) ([], {}) method_priority)"

definition combine_and_validate :: "method_result list \<Rightarrow> final_result" where
  "combine_and_validate results =
     (let all_soldiers = take 10 (merged_soldiers results)
      in \<lparr> soldiers = all_soldiers, method_name = ''foolproof_multi_layer'',
           total_soldiers = length all_soldiers, success = (length all_soldiers > 0) \<rparr>)"

subsection \<open>The three methods and \<open>extract_ippt_data\<close>\<close>

text \<open>
  Each method wraps its extraction in \<open>try ... except Exception\<close>. The extraction itself
  (reading the image or the JSON file, then parsing) is given by its outcome: the
  candidates, or the exception it raised.
\<close>

definition azure_ocr_extraction :: "py_error + soldier list \<Rightarrow> method_result" where
  "azure_ocr_extraction outcome =
     (case outcome of Inr ss \<Rightarrow> \<lparr> soldiers = ss, method_name = ''azure_ocr'' \<rparr>
                    | Inl e \<Rightarrow> \<lparr> soldiers = [], method_name = ''azure_ocr_failed'' \<rparr>)"

definition pattern_based_extraction :: "py_error + soldier list \<Rightarrow> method_result" where
  "pattern_based_extraction outcome =
     (case outcome of Inr ss \<Rightarrow> \<lparr> soldiers = ss, method_name = ''pattern_based'' \<rparr>
                    | Inl e \<Rightarrow> \<lparr> soldiers = [], method_name = ''pattern_failed'' \<rparr>)"

definition fallback_extraction :: "py_error + soldier list \<Rightarrow> method_result" where
  "fallback_extraction outcome =
     (case outcome of Inr ss \<Rightarrow> \<lparr> soldiers = ss, method_name = ''fallback'' \<rparr>
                    | Inl e \<Rightarrow> \<lparr> soldiers = [], method_name = ''fallback_failed'' \<rparr>)"

definition extract_ippt_data ::
  "py_error + soldier list \<Rightarrow> py_error + soldier list \<Rightarrow> py_error + soldier list
     \<Rightarrow> py_error option \<Rightarrow> ippt_result" where
  \<comment> \<open>given the outcomes of the three extractions and of the export of the merged result to
      a file (\<open>None\<close>: the file was written). The export stands inside the outer \<open>try\<close>:
      when it raises, \<open>{'soldiers': [], 'error': ...}\<close> is returned and the merged result
      is lost.\<close>
  "extract_ippt_data azure pattern fallback export =
     (let final_result = combine_and_validate
            [azure_ocr_extraction azure, pattern_based_extraction pattern,
             fallback_extraction fallback]
      in case export of None \<Rightarrow> Result final_result | Some e \<Rightarrow> ErrorResult e)"

definition extract_from_inputs ::
  "py_error + 'b text_item list \<Rightarrow> py_error + string list \<Rightarrow> py_error + string list
     \<Rightarrow> py_error option \<Rightarrow> ippt_result" where
  \<comment> \<open>\<open>extract_ippt_data\<close> given what its collaborators supply: the lines recognised in the
      image, the lines of the JSON file as the pattern method reads it and as the fallback
      method reads it (each time: or the exception met), and the outcome of the export\<close>
  "extract_from_inputs ocr_lines pattern_file fallback_file export =
     extract_ippt_data (bind_err ocr_lines extract_soldiers_from_text)
       (bind_err pattern_file enhanced_pattern_matching)
       (bind_err fallback_file aggressive_extraction) export"

section \<open>The Reconciler of api/foolproof\_ocr\_endpoint.py\<close>

definition validate_soldier :: "soldier \<Rightarrow> bool" where
  "validate_soldier s =
     (if name s = [] \<or> length (name s) < 2 then False
      else if \<not> (sit_up_reps s > 0 \<or> push_up_reps s > 0 \<or> run_time s \<noteq> []) then False
      else if sit_up_reps s > 200 then False
      else if push_up_reps s > 200 then False
      else True)"

definition deduplicate_and_validate :: "soldier list \<Rightarrow> soldier list" where
  "deduplicate_and_validate ss = take 10 (fst (foldl (accept_soldier validate_soldier) ([], {}) ss))"

definition ep_extract_ippt_data :: "soldier list \<Rightarrow> soldier list \<Rightarrow> final_result" where
  \<comment> \<open>\<open>extract_ippt_data\<close> of the endpoint, given what its two strategies return
      (each catches its own exceptions and returns the candidates found so far).\<close>
  "ep_extract_ippt_data working azure =
     (let soldiers0 = (if length working < 8 then working @ azure else working);
          final_soldiers = deduplicate_and_validate soldiers0
      in \<lparr> soldiers = final_soldiers, method_name = ''foolproof_hybrid'',
           total_soldiers = length final_soldiers, success = (length final_soldiers > 0) \<rparr>)"

definition nearby_azure_step :: "string list \<Rightarrow> soldier \<Rightarrow> nat \<Rightarrow> py_error + soldier loop_step" where
  \<comment> \<open>the body of the loop of \<open>_extract_nearby_azure_data\<close>\<close>
  "nearby_azure_step all_text sd i =
     bind_err (py_get all_text i) (\<lambda>t.
       let text = strip t
       in bind_err (is_serial text) (\<lambda>b.
            if b then Inr (Break sd)
            else if contains ''PTE'' text \<or> (str_isupper text \<and> length text > 3) then
              (if name sd = [] then
                 Inr (Continue (sd\<lparr>name := strip (str_replace ''PTE'' [] text)\<rparr>))
               else Inr (Continue sd))
            else if re_match_digits text then
              bind_err (py_int text) (\<lambda>num.
                if 5 \<le> num \<and> num \<le> 80 \<and> sit_up_reps sd = 0 then
                  Inr (Continue (sd\<lparr>sit_up_reps := num\<rparr>))
                else if num \<le> 200 \<and> push_up_reps sd = 0 then
                  Inr (Continue (sd\<lparr>push_up_reps := num\<rparr>))
                else Inr (Continue sd))
            else if re_match_time text then
              (if run_time sd = [] then Inr (Continue (sd\<lparr>run_time := text\<rparr>))
               else Inr (Continue sd))
            else Inr (Continue sd)))"

definition extract_nearby_azure_data ::
  "string list \<Rightarrow> nat \<Rightarrow> int \<Rightarrow> py_error + soldier option" where
  "extract_nearby_azure_data all_text index serial =
     (let search_range = min (index + 20) (length all_text)
      in bind_err (loop_err (nearby_azure_step all_text) empty_soldier [index + 1..<search_range])
           (\<lambda>sd. Inr (if name sd \<noteq> [] then Some sd else None)))"

definition ep_working_line_based_strategy :: "py_error + string list \<Rightarrow> soldier list" where
  \<comment> \<open>\<open>_working_line_based_strategy\<close> of the endpoint, given the lines of the JSON file or
      the exception met reading it\<close>
  "ep_working_line_based_strategy file_lines =
     (case file_lines of
        Inl e \<Rightarrow> []
      | Inr lines \<Rightarrow>
          fold_keep (\<lambda>found ps. case ps of (pos, serial) \<Rightarrow>
             if pos < length lines then
               bind_err (extract_soldier_at_position lines pos (SerialStr serial)) (\<lambda>soldier.
                 case soldier of
                   Some sd \<Rightarrow> if name sd \<noteq> [] then Inr (found @ [sd]) else Inr found
                 | None \<Rightarrow> Inr found)
             else Inr found) [] soldier_positions)"

definition ep_azure_ocr_strategy :: "py_error + string list \<Rightarrow> soldier list" where
  \<comment> \<open>\<open>_azure_ocr_strategy\<close>, given the texts of the lines recognised in the image or the
      exception met\<close>
  "ep_azure_ocr_strategy ocr_lines =
     (case ocr_lines of
        Inl e \<Rightarrow> []
      | Inr all_text \<Rightarrow>
          fold_keep (\<lambda>found i.
             bind_err (py_get all_text i) (\<lambda>text.
               bind_err (is_serial (strip text)) (\<lambda>b.
                 if b then
                   bind_err (py_int (strip text)) (\<lambda>serial_num.
                     bind_err (extract_nearby_azure_data all_text i serial_num) (\<lambda>soldier.
                       case soldier of
                         Some sd \<Rightarrow> if name sd \<noteq> [] then Inr (found @ [sd]) else Inr found
                       | None \<Rightarrow> Inr found))
                 else Inr found))) [] [0..<length all_text])"

definition ep_extract_from_inputs ::
  "py_error + string list \<Rightarrow> py_error + string list \<Rightarrow> final_result" where
  \<comment> \<open>\<open>extract_ippt_data\<close> of the endpoint given what its collaborators supply; the Azure
      strategy runs only when the first one found fewer than 8 records, and its result is
      read only then\<close>
  "ep_extract_from_inputs file_lines ocr_lines =
     ep_extract_ippt_data (ep_working_line_based_strategy file_lines) (ep_azure_ocr_strategy ocr_lines)"

section \<open>The Field Validator of api/chatgpt\_vision\_ocr.py\<close>

definition match_time_here :: "string \<Rightarrow> (string \<times> string) option" where
  \<comment> \<open>\<open>(\d{1,2}):(\d{2})\<close> tried at the start of the string: two digits of minutes
      first, one digit when that fails; the result is the two groups\<close>
  "match_time_here s =
     (case s of
        a # b # c # p # q # _ \<Rightarrow>
          if is_digit a \<and> is_digit b \<and> c = CHR '':'' \<and> is_digit p \<and> is_digit q
          then Some ([a, b], [p, q])
          else if is_digit a \<and> b = CHR '':'' \<and> is_digit c \<and> is_digit p
          then Some ([a], [c, p])
          else None
      | [a, b, c, p] \<Rightarrow>
          if is_digit a \<and> b = CHR '':'' \<and> is_digit c \<and> is_digit p
          then Some ([a], [c, p])
          else None
      | _ \<Rightarrow> None)"

fun re_search_time :: "string \<Rightarrow> (string \<times> string) option" where
  \<comment> \<open>\<open>re.search(r'(\d{1,2}):(\d{2})', s)\<close>: the match at the leftmost position that has one\<close>
  "re_search_time [] = None"
| "re_search_time (c # cs) =
     (case match_time_here (c # cs) of Some g \<Rightarrow> Some g | None \<Rightarrow> re_search_time cs)"

function str_of_nat :: "nat \<Rightarrow> string" where
  "str_of_nat n =
     (if n < 10 then [char_of (48 + n)] else str_of_nat (n div 10) @ [char_of (48 + n mod 10)])"
  by pat_completeness auto
termination
  by (relation "measure id") auto

declare str_of_nat.simps [simp del]

definition py_str :: "int \<Rightarrow> string" where
  \<comment> \<open>\<open>str(n)\<close>, also what \<open>{n}\<close> gives in an f-string\<close>
  "py_str n = (if n < 0 then CHR ''-'' # str_of_nat (nat (- n)) else str_of_nat (nat n))"

definition format_02d :: "int \<Rightarrow> string" where
  \<comment> \<open>\<open>{n:02d}\<close>: zeros after the sign up to a width of two\<close>
  "format_02d n = (if n < 0 then py_str n
                   else replicate (2 - length (py_str n)) (CHR ''0'') @ py_str n)"

definition validate_time :: "string \<Rightarrow> py_error + string" where
  "validate_time time_str =
     (if time_str = [] then Inr []
      else case re_search_time time_str of
             Some (g1, g2) \<Rightarrow>
               bind_err (py_int g1) (\<lambda>minutes.
                 bind_err (py_int g2) (\<lambda>seconds.
                   if 0 \<le> minutes \<and> minutes \<le> 30 \<and> 0 \<le> seconds \<and> seconds \<le> 59
                   then Inr (py_str minutes @ '':'' @ format_02d seconds)
                   else Inr []))
           | None \<Rightarrow> Inr [])"

section \<open>The Spatial Extractor of spatial\_ippt\_parser.py\<close>

record spatial_result =
  sp_soldiers :: "soldier list"
  sp_total_soldiers :: "nat option"
  sp_method :: "string option"
  sp_error :: "py_error option"

definition near_serial_step ::
  "'b text_item list \<Rightarrow> soldier \<Rightarrow> nat \<Rightarrow> py_error + soldier loop_step" where
  \<comment> \<open>the body of the loop of \<open>_extract_soldier_near_serial\<close>\<close>
  "near_serial_step all_text sd i =
     bind_err (py_get all_text i) (\<lambda>item.
       let text = strip (item_text item)
       in bind_err (is_serial text) (\<lambda>b.
            if b then Inr (Break sd)
            else if contains ''PTE'' text \<or> (str_isupper text \<and> length text > 3) then
              (if name sd = [] then
                 Inr (Continue (sd\<lparr>name := strip (str_replace ''PTE'' [] text)\<rparr>))
               else if name sd \<noteq> [] \<and> length text > length (name sd) then
                 Inr (Continue (sd\<lparr>name := strip (str_replace ''PTE'' [] text)\<rparr>))
               else Inr (Continue sd))
            else if re_match_digits text then
              bind_err (py_int text) (\<lambda>num.
                if 5 \<le> num \<and> num \<le> 80 then
                  (if sit_up_reps sd = 0 then Inr (Continue (sd\<lparr>sit_up_reps := num\<rparr>))
                   else Inr (Continue sd))
                else if num \<le> 2000 then
                  (if push_up_reps sd = 0 then Inr (Continue (sd\<lparr>push_up_reps := num\<rparr>))
                   else Inr (Continue sd))
                else Inr (Continue sd))
            else if re_match_time text then
              (if run_time sd = [] then Inr (Continue (sd\<lparr>run_time := text\<rparr>))
               else Inr (Continue sd))
            else Inr (Continue sd)))"

definition extract_soldier_near_serial ::
  "'b text_item list \<Rightarrow> nat \<Rightarrow> int \<Rightarrow> py_error + soldier" where
  "extract_soldier_near_serial all_text serial_index serial_num =
     (let search_range = min (serial_index + 20) (length all_text)
      in loop_err (near_serial_step all_text) empty_soldier [serial_index + 1..<search_range])"

definition regions_step ::
  "'b text_item list \<Rightarrow> soldier list \<Rightarrow> nat \<Rightarrow> py_error + soldier list" where
  \<comment> \<open>the body of the loop over \<open>enumerate(all_text)\<close>; \<open>found\<close> is the list \<open>soldiers\<close>\<close>
  "regions_step all_text found i =
     bind_err (py_get all_text i) (\<lambda>item.
       let text = strip (item_text item)
       in bind_err (is_serial text) (\<lambda>b.
            if b then
              bind_err (py_int text) (\<lambda>serial_num.
                bind_err (extract_soldier_near_serial all_text i serial_num) (\<lambda>soldier_data.
                  if name soldier_data \<noteq> [] then Inr (found @ [soldier_data])
                  else Inr found))
            else Inr found))"

definition extract_soldiers_by_regions :: "'b text_item list list \<Rightarrow> spatial_result" where
  \<comment> \<open>from the pages of the recognition result, each a list of lines; reading the image and
      writing the export are left out\<close>
  "extract_soldiers_by_regions pages =
     (if pages = [] then
        \<lparr> sp_soldiers = [], sp_total_soldiers = None, sp_method = None, sp_error = None \<rparr>
      else
        let all_text = concat pages
        in case fold_err (regions_step all_text) [] [0..<length all_text] of
             Inr found \<Rightarrow>
               \<lparr> sp_soldiers = found, sp_total_soldiers = Some (length found),
                 sp_method = Some ''spatial_coordinate_analysis'', sp_error = None \<rparr>
           | Inl e \<Rightarrow>
               \<lparr> sp_soldiers = [], sp_total_soldiers = None, sp_method = None,
                 sp_error = Some e \<rparr>)"

section \<open>The properties as the specification words them\<close>

subsection \<open>The record invariant\<close>

definition spec_run_time_ok :: "string \<Rightarrow> bool" where
  \<comment> \<open>empty, or \<open>^\d{1,2}:\d{2}$\<close> with minutes at most 30 and seconds at most 59\<close>
  "spec_run_time_ok t =
     (t = [] \<or>
      (re_match_time t
       \<and> int_of_digits (takeWhile (\<lambda>c. c \<noteq> CHR '':'') (chomp t)) \<le> 30
       \<and> int_of_digits (drop 1 (dropWhile (\<lambda>c. c \<noteq> CHR '':'') (chomp t))) \<le> 59))"




subsection \<open>The positional layout\<close>

text \<open>
  The record an anchor at \<open>pos\<close> stands for: the identity from the line at \<open>pos + 2\<close>,
  the three fields from the lines at \<open>pos + 7, pos + 8, pos + 9\<close> for the first record and
  at \<open>pos + 6, pos + 7, pos + 8\<close> for the others; a line past the end, or a line of another
  shape, leaves the default.
\<close>

definition line_at :: "string list \<Rightarrow> nat \<Rightarrow> string option" where
  "line_at lines i = (if i < length lines then Some (strip (lines ! i)) else None)"

definition all_digits :: "string \<Rightarrow> bool" where
  "all_digits s = (s \<noteq> [] \<and> list_all is_digit s)"

definition time_shaped :: "string \<Rightarrow> bool" where
  "time_shaped s =
     (case s of
        [a, c, p, q] \<Rightarrow> is_digit a \<and> c = CHR '':'' \<and> is_digit p \<and> is_digit q
      | [a, b, c, p, q] \<Rightarrow> is_digit a \<and> is_digit b \<and> c = CHR '':'' \<and> is_digit p \<and> is_digit q
      | _ \<Rightarrow> False)"

definition slot_identity :: "string list \<Rightarrow> nat \<Rightarrow> string" where
  "slot_identity lines i =
     (case line_at lines i of Some l \<Rightarrow> strip (str_replace ''PTE'' [] l) | None \<Rightarrow> [])"

definition slot_metric :: "string list \<Rightarrow> nat \<Rightarrow> int" where
  "slot_metric lines i =
     (case line_at lines i of
        Some l \<Rightarrow> if all_digits l then int (int_of_digits l) else 0
      | None \<Rightarrow> 0)"

definition slot_run_time :: "string list \<Rightarrow> nat \<Rightarrow> string" where
  "slot_run_time lines i =
     (case line_at lines i of Some l \<Rightarrow> if time_shaped l then l else [] | None \<Rightarrow> [])"

definition positional_record :: "string list \<Rightarrow> nat \<Rightarrow> bool \<Rightarrow> soldier" where
  "positional_record lines pos first =
     (if first then
        \<lparr> name = slot_identity lines (pos + 2),
          sit_up_reps = slot_metric lines (pos + 7),
          push_up_reps = slot_metric lines (pos + 8),
          run_time = slot_run_time lines (pos + 9) \<rparr>
      else
        \<lparr> name = slot_identity lines (pos + 2),
          sit_up_reps = slot_metric lines (pos + 6),
          push_up_reps = slot_metric lines (pos + 7),
          run_time = slot_run_time lines (pos + 8) \<rparr>)"

definition overlong_at :: "string list \<Rightarrow> nat \<Rightarrow> bool" where
  \<comment> \<open>the line at \<open>i\<close> is a line of digits that \<open>int\<close> refuses to convert\<close>
  "overlong_at lines i =
     (case line_at lines i of
        Some l \<Rightarrow> all_digits l \<and> length l > int_max_str_digits
      | None \<Rightarrow> False)"

definition positional_overlong :: "string list \<Rightarrow> nat \<Rightarrow> bool \<Rightarrow> bool" where
  \<comment> \<open>one of the two lines read as counts is such a line\<close>
  "positional_overlong lines pos first =
     (if first then overlong_at lines (pos + 7) \<or> overlong_at lines (pos + 8)
      else overlong_at lines (pos + 6) \<or> overlong_at lines (pos + 7))"

subsection \<open>The time validator\<close>

text \<open>
  The substring the search finds is the one at the least index where an \<open>HH:MM\<close> or an
  \<open>H:MM\<close> shape starts, read as \<open>HH:MM\<close> where both fit. A normalized time is
  \<open>M:SS\<close> or \<open>MM:SS\<close> in range, with no leading zero on two-digit minutes.
\<close>

definition hh_mm_at :: "string \<Rightarrow> nat \<Rightarrow> bool" where
  "hh_mm_at s i =
     (i + 4 < length s \<and> is_digit (s ! i) \<and> is_digit (s ! (i + 1)) \<and> s ! (i + 2) = CHR '':''
      \<and> is_digit (s ! (i + 3)) \<and> is_digit (s ! (i + 4)))"

definition h_mm_at :: "string \<Rightarrow> nat \<Rightarrow> bool" where
  "h_mm_at s i =
     (i + 3 < length s \<and> is_digit (s ! i) \<and> s ! (i + 1) = CHR '':''
      \<and> is_digit (s ! (i + 2)) \<and> is_digit (s ! (i + 3)))"

definition first_time_at :: "string \<Rightarrow> nat option" where
  "first_time_at s = find (\<lambda>i. hh_mm_at s i \<or> h_mm_at s i) [0..<length s]"

definition minutes_at :: "string \<Rightarrow> nat \<Rightarrow> nat" where
  "minutes_at s i = (if hh_mm_at s i then 10 * digit_val (s ! i) + digit_val (s ! (i + 1))
                     else digit_val (s ! i))"

definition seconds_at :: "string \<Rightarrow> nat \<Rightarrow> nat" where
  "seconds_at s i = (if hh_mm_at s i then 10 * digit_val (s ! (i + 3)) + digit_val (s ! (i + 4))
                     else 10 * digit_val (s ! (i + 2)) + digit_val (s ! (i + 3)))"

definition two_digits :: "nat \<Rightarrow> string" where
  "two_digits v = [char_of (48 + v div 10), char_of (48 + v mod 10)]"

definition decimal :: "nat \<Rightarrow> string" where
  "decimal m = (if m < 10 then [char_of (48 + m)] else two_digits m)"

definition spec_validate_time :: "string \<Rightarrow> string" where
  "spec_validate_time s =
     (case first_time_at s of
        None \<Rightarrow> []
      | Some i \<Rightarrow> if minutes_at s i \<le> 30 \<and> seconds_at s i \<le> 59
                  then decimal (minutes_at s i) @ '':'' @ two_digits (seconds_at s i)
                  else [])"

definition groups_at :: "string \<Rightarrow> nat \<Rightarrow> string \<times> string" where
  "groups_at s i = (if hh_mm_at s i then ([s ! i, s ! (i + 1)], [s ! (i + 3), s ! (i + 4)])
                    else ([s ! i], [s ! (i + 2), s ! (i + 3)]))"

definition normalized_time :: "string \<Rightarrow> bool" where
  "normalized_time x =
     (case x of
        [a, c, p, q] \<Rightarrow>
          is_digit a \<and> c = CHR '':'' \<and> is_digit p \<and> is_digit q
          \<and> 10 * digit_val p + digit_val q \<le> 59
      | [a, b, c, p, q] \<Rightarrow>
          is_digit a \<and> a \<noteq> CHR ''0'' \<and> is_digit b \<and> c = CHR '':'' \<and> is_digit p \<and> is_digit q
          \<and> 10 * digit_val a + digit_val b \<le> 30 \<and> 10 * digit_val p + digit_val q \<le> 59
      | _ \<Rightarrow> False)"

definition in_range_time :: "string \<Rightarrow> bool" where
  \<comment> \<open>a string \<open>M:SS\<close> or \<open>MM:SS\<close> with minutes at most 30 and seconds at most 59\<close>
  "in_range_time x =
     (case x of
        [a, c, p, q] \<Rightarrow>
          is_digit a \<and> c = CHR '':'' \<and> is_digit p \<and> is_digit q
          \<and> 10 * digit_val p + digit_val q \<le> 59
      | [a, b, c, p, q] \<Rightarrow>
          is_digit a \<and> is_digit b \<and> c = CHR '':'' \<and> is_digit p \<and> is_digit q
          \<and> 10 * digit_val a + digit_val b \<le> 30 \<and> 10 * digit_val p + digit_val q \<le> 59
      | _ \<Rightarrow> False)"

definition leading_zero :: "string \<Rightarrow> bool" where
  \<comment> \<open>two digits of minutes, the first of them 0\<close>
  "leading_zero x = (length x = 5 \<and> hd x = CHR ''0'')"

section \<open>The merge loop as a function of the candidates\<close>

text \<open>
  What the innermost loop appends to \<open>all_soldiers\<close> when \<open>seen_names\<close> is \<open>seen\<close>, and
  the order in which the three nested loops meet the candidates.
\<close>

fun accepted :: "(soldier \<Rightarrow> bool) \<Rightarrow> string set \<Rightarrow> soldier list \<Rightarrow> soldier list" where
  "accepted valid seen [] = []"
| "accepted valid seen (c # cs) =
     (if name c \<noteq> [] \<and> name c \<notin> seen \<and> valid c
      then c # accepted valid (insert (name c) seen) cs
      else accepted valid seen cs)"

definition candidates_in_priority_order :: "method_result list \<Rightarrow> soldier list" where
  "candidates_in_priority_order results =
     concat (map (\<lambda>m. concat (map soldiers (filter (\<lambda>r. method_name r = m) results))) method_priority)"

section \<open>What the extraction loops maintain\<close>




section \<open>Example inputs\<close>

definition john_tan_35 :: soldier where
  "john_tan_35 = \<lparr> name = ''JOHN TAN'', sit_up_reps = 35, push_up_reps = 40, run_time = ''9:30'' \<rparr>"

definition john_tan_38 :: soldier where
  "john_tan_38 = \<lparr> name = ''JOHN TAN'', sit_up_reps = 38, push_up_reps = 40, run_time = ''9:30'' \<rparr>"

definition john_tan_no_data :: soldier where
  "john_tan_no_data = \<lparr> name = ''JOHN TAN'', sit_up_reps = 0, push_up_reps = 0, run_time = [] \<rparr>"

definition ten_others :: "soldier list" where
  "ten_others =
     map (\<lambda>n. \<lparr> name = n, sit_up_reps = 35, push_up_reps = 40, run_time = ''9:30'' \<rparr>)
       [''AA'', ''AB'', ''AC'', ''AD'', ''AE'', ''AF'', ''AG'', ''AH'', ''AI'', ''AJ'']"

definition scenario_lines :: "string list" where
  "scenario_lines = [''1'', ''ID001'', ''PTE JOHN TAN'', ''x'', ''x'', ''x'', ''x'', ''35'', ''40'', ''9:30'']"


definition example_box :: "(int \<times> int) list" where
  "example_box = [(0, 0), (10, 0), (10, 2), (0, 2)]"

definition example_page :: "(int \<times> int) list text_item list" where
  "example_page =
     concat (replicate 11
       [\<lparr> item_text = ''1'', bbox = example_box \<rparr>,
        \<lparr> item_text = ''PTE JOHN TAN'', bbox = example_box \<rparr>])"



definition john_tan_blank_run :: soldier where
  "john_tan_blank_run = \<lparr> name = ''JOHN TAN'', sit_up_reps = 0, push_up_reps = 0, run_time = '' 9:30'' \<rparr>"

definition john_tan_misread :: soldier where
  "john_tan_misread = \<lparr> name = ''JOHN TAN'', sit_up_reps = 0, push_up_reps = 35, run_time = [] \<rparr>"

definition image_lines :: "string list \<Rightarrow> (int \<times> int) list text_item list" where
  \<comment> \<open>the lines recognised in an image, each with a box\<close>
  "image_lines ts = map (\<lambda>t. \<lparr> item_text = t, bbox = example_box \<rparr>) ts"




definition overlong_lines :: "string list" where
  \<comment> \<open>the scenario with 4301 digits where the sit-ups stand\<close>
  "overlong_lines = scenario_lines [7 := replicate 4301 (CHR ''7'')]"

section \<open>Facts about the merge loop\<close>

lemma foldl_accept_soldier:
  "foldl (accept_soldier valid) (acc, seen) cs =
     (acc @ accepted valid seen cs, seen \<union> name ` set (accepted valid seen cs))"
  by (induction cs arbitrary: acc seen) (auto simp: accept_soldier_def)

lemma accepted_append:
  "accepted valid seen (xs @ ys) =
     accepted valid seen xs @ accepted valid (seen \<union> name ` set (accepted valid seen xs)) ys"
  by (induction xs arbitrary: seen) auto

lemma foldl_results:
  "foldl (\<lambda>st r. if method_name r = m then foldl (accept_soldier valid) st (soldiers r) else st)
         (acc, seen) rs =
     (acc @ accepted valid seen (concat (map soldiers (filter (\<lambda>r. method_name r = m) rs))),
      seen \<union> name ` set (accepted valid seen (concat (map soldiers (filter (\<lambda>r. method_name r = m) rs)))))"
proof (induction rs arbitrary: acc seen)
  case Nil
  show ?case by simp
next
  case (Cons r rs)
  show ?case
  proof (cases "method_name r = m")
    case True
    then show ?thesis
      by (simp add: foldl_accept_soldier Cons.IH accepted_append Un_assoc image_Un)
  next
    case False
    then show ?thesis by (simp add: Cons.IH)
  qed
qed

lemma scan_results_accepted:
  "scan_results results (acc, seen) m =
     (acc @ accepted validate_soldier_data seen (concat (map soldiers (filter (\<lambda>r. method_name r = m) results))),
      seen \<union> name ` set (accepted validate_soldier_data seen
                 (concat (map soldiers (filter (\<lambda>r. method_name r = m) results)))))"
  unfolding scan_results_def by (rule foldl_results)

lemma foldl_scan_results:
  "foldl (scan_results results) (acc, seen) ms =
     (acc @ accepted validate_soldier_data seen
              (concat (map (\<lambda>m. concat (map soldiers (filter (\<lambda>r. method_name r = m) results))) ms)),
      seen \<union> name ` set (accepted validate_soldier_data seen
              (concat (map (\<lambda>m. concat (map soldiers (filter (\<lambda>r. method_name r = m) results))) ms))))"
proof (induction ms arbitrary: acc seen)
  case Nil
  show ?case by simp
next
  case (Cons m ms)
  show ?case
    by (simp add: scan_results_accepted Cons.IH accepted_append Un_assoc image_Un)
qed

lemma merged_soldiers_accepted:
  "merged_soldiers results =
     accepted validate_soldier_data {} (candidates_in_priority_order results)"
  by (simp add: merged_soldiers_def foldl_scan_results candidates_in_priority_order_def)

lemma combine_soldiers: "soldiers (combine_and_validate results) = take 10 (merged_soldiers results)"
  by (simp add: combine_and_validate_def Let_def)

lemma deduplicate_accepted:
  "deduplicate_and_validate ss = take 10 (accepted validate_soldier {} ss)"
  by (simp add: deduplicate_and_validate_def foldl_accept_soldier)

lemma accepted_names: "name ` set (accepted valid seen cs) \<inter> seen = {}"
  by (induction cs arbitrary: seen) auto

lemma accepted_not_seen: "r \<in> set (accepted valid seen cs) \<Longrightarrow> name r \<notin> seen"
  using accepted_names [of valid seen cs] by auto

lemma accepted_distinct: "distinct (map name (accepted valid seen cs))"
proof (induction cs arbitrary: seen)
  case Nil
  show ?case by simp
next
  case (Cons c cs)
  have "name c \<notin> name ` set (accepted valid (insert (name c) seen) cs)"
  proof
    assume "name c \<in> name ` set (accepted valid (insert (name c) seen) cs)"
    then obtain x where x: "x \<in> set (accepted valid (insert (name c) seen) cs)"
      and "name x = name c" by auto
    with accepted_not_seen [OF x] show False by simp
  qed
  with Cons.IH show ?case by simp
qed


lemma distinct_map_take: "distinct (map f xs) \<Longrightarrow> distinct (map f (take n xs))"
  by (simp add: distinct_take take_map [symmetric])

lemma accepted_first_valid:
  assumes "r \<in> set (accepted valid seen cs)" and "\<And>c. valid c \<Longrightarrow> name c \<noteq> []"
  shows "find (\<lambda>c. name c = name r \<and> valid c) cs = Some r"
  using assms(1)
proof (induction cs arbitrary: seen)
  case Nil
  then show ?case by simp
next
  case (Cons c cs)
  show ?case
  proof (cases "name c \<noteq> [] \<and> name c \<notin> seen \<and> valid c")
    case True
    with Cons.prems have "r = c \<or> r \<in> set (accepted valid (insert (name c) seen) cs)" by simp
    then show ?thesis
    proof
      assume "r = c"
      with True show ?thesis by simp
    next
      assume in_rest: "r \<in> set (accepted valid (insert (name c) seen) cs)"
      then have "name r \<noteq> name c"
        using accepted_not_seen [of r valid "insert (name c) seen" cs] by auto
      with Cons.IH [OF in_rest] show ?thesis by simp
    qed
  next
    case False
    with Cons.prems have in_rest: "r \<in> set (accepted valid seen cs)" by auto
    then have "name r \<notin> seen"
      by (rule accepted_not_seen)
    with False assms(2) [of c] have "\<not> (name c = name r \<and> valid c)" by auto
    with Cons.IH [OF in_rest] show ?thesis by auto
  qed
qed

lemma find_accepted:
  assumes "find (\<lambda>c. name c = n \<and> valid c) cs = Some a" and "n \<notin> seen"
    and "\<And>c. valid c \<Longrightarrow> name c \<noteq> []"
  shows "a \<in> set (accepted valid seen cs)"
  using assms(1,2)
proof (induction cs arbitrary: seen)
  case Nil
  then show ?case by simp
next
  case (Cons c cs)
  then show ?case using assms(3) [of c] by (auto split: if_splits)
qed

lemma validate_soldier_data_name: "validate_soldier_data c \<Longrightarrow> name c \<noteq> []"
  by (auto simp: validate_soldier_data_def split: if_splits)

lemma validate_soldier_name: "validate_soldier c \<Longrightarrow> name c \<noteq> []"
  by (auto simp: validate_soldier_def split: if_splits)

lemma candidates_of_three_methods:
  "candidates_in_priority_order
     [azure_ocr_extraction (Inr a), pattern_based_extraction (Inr p), fallback_extraction (Inr f)]
   = a @ p @ f"
  by (simp add: candidates_in_priority_order_def method_priority_def azure_ocr_extraction_def
      pattern_based_extraction_def fallback_extraction_def)

section \<open>Facts about strings and loops\<close>

lemma bind_err_Inr: "bind_err (Inr v) f = f v"
  by (simp add: bind_err_def)

lemma bind_err_Inl: "bind_err (Inl e) f = Inl e"
  by (simp add: bind_err_def)


lemma dropWhile_none: "\<forall>c\<in>set xs. \<not> P c \<Longrightarrow> dropWhile P xs = xs"
  by (cases xs) auto

lemma strip_no_space: "\<forall>c\<in>set s. \<not> is_space c \<Longrightarrow> strip s = s"
  by (simp add: strip_def dropWhile_none)

lemma last_strip: "strip s \<noteq> [] \<Longrightarrow> \<not> is_space (last (strip s))"
proof -
  assume ne: "strip s \<noteq> []"
  let ?t = "dropWhile is_space (rev (dropWhile is_space s))"
  from ne have "?t \<noteq> []" by (simp add: strip_def)
  then have "\<not> is_space (hd ?t)" by (rule hd_dropWhile)
  moreover have "last (strip s) = hd ?t" using \<open>?t \<noteq> []\<close> by (simp add: strip_def last_rev)
  ultimately show ?thesis by simp
qed

lemma newline_is_space: "is_space (CHR 0x0A)"
  by (simp add: is_space_def)

lemma chomp_strip: "chomp (strip s) = strip s"
  using last_strip [of s] newline_is_space by (auto simp: chomp_def)

lemma digit_not_space: "is_digit c \<Longrightarrow> \<not> is_space c"
  by (auto simp: is_digit_def is_space_def)


lemma strip_digits: "list_all is_digit s \<Longrightarrow> strip s = s"
  by (rule strip_no_space) (auto simp: list_all_iff digit_not_space)

lemma re_match_digits_strip: "re_match_digits (strip l) = all_digits (strip l)"
  by (simp add: re_match_digits_def all_digits_def chomp_strip)

lemma re_match_time_strip: "re_match_time (strip l) = time_shaped (strip l)"
  by (simp add: re_match_time_def time_shaped_def chomp_strip)



lemma py_int_digits:
  "all_digits s \<Longrightarrow>
   py_int s = (if length s > int_max_str_digits then Inl ValueError
               else Inr (int (int_of_digits s)))"
  by (simp add: py_int_def all_digits_def strip_digits)


lemma py_int_never_IndexError: "py_int s \<noteq> Inl IndexError"
  by (simp add: py_int_def)




section \<open>What every candidate of an extractor satisfies\<close>







subsection \<open>The positional routine and the strategies on it\<close>






subsection \<open>The name anchor\<close>




subsection \<open>The time anchor\<close>




subsection \<open>The union of the four strategies\<close>



subsection \<open>The Azure method\<close>




subsection \<open>The fallback method\<close>




subsection \<open>The strategies of the endpoint\<close>





section \<open>The Reconciler: cap, distinct identities, ranges, priority\<close>

text \<open>
  C1. For every input, the record list the Reconciler returns has at most 10 records:
  \<open>_combine_and_validate\<close> (and \<open>extract_ippt_data\<close> around it, whatever the three
  extractions and the export do) in foolproof\_ocr\_parser.py, \<open>_deduplicate_and_validate\<close>
  (and \<open>extract_ippt_data\<close> around it) in the endpoint.
\<close>

theorem reconciler_output_at_most_10:
  "length (soldiers (combine_and_validate results)) \<le> 10
   \<and> total_soldiers (combine_and_validate results) \<le> 10
   \<and> length (result_soldiers (extract_ippt_data azure pattern fallback export)) \<le> 10
   \<and> length (result_soldiers (extract_from_inputs ocr_lines pattern_file fallback_file export)) \<le> 10
   \<and> length (deduplicate_and_validate ss) \<le> 10
   \<and> length (soldiers (ep_extract_ippt_data working backup)) \<le> 10
   \<and> length (soldiers (ep_extract_from_inputs file_lines ep_ocr_lines)) \<le> 10"
  by (simp add: combine_and_validate_def extract_ippt_data_def extract_from_inputs_def
      result_soldiers_def deduplicate_and_validate_def ep_extract_ippt_data_def
      ep_extract_from_inputs_def Let_def split: option.splits)

text \<open>Eleven valid candidates with eleven names: all are accepted, ten are returned.\<close>

theorem reconciler_output_at_most_10_witness:
  "length (merged_soldiers [\<lparr> soldiers = ten_others @ [john_tan_35], method_name = ''azure_ocr'' \<rparr>]) = 11
   \<and> length (soldiers (combine_and_validate
         [\<lparr> soldiers = ten_others @ [john_tan_35], method_name = ''azure_ocr'' \<rparr>])) \<le> 10"
proof -
  have "length (merged_soldiers
          [\<lparr> soldiers = ten_others @ [john_tan_35], method_name = ''azure_ocr'' \<rparr>]) = 11"
    by code_simp
  moreover have "length (soldiers (combine_and_validate
          [\<lparr> soldiers = ten_others @ [john_tan_35], method_name = ''azure_ocr'' \<rparr>])) \<le> 10"
    using reconciler_output_at_most_10 by (rule conjunct1)
  ultimately show ?thesis by (rule conjI)
qed

text \<open>
  C2. For every input, the names of the records the Reconciler returns are pairwise
  distinct as strings (no case folding); in the merge loop a candidate whose name is
  already in \<open>seen_names\<close> leaves \<open>all_soldiers\<close> and \<open>seen_names\<close> as they are.
\<close>

theorem reconciler_identities_distinct:
  "distinct (map name (soldiers (combine_and_validate results)))
   \<and> distinct (map name (deduplicate_and_validate ss))
   \<and> (name s \<in> seen_names \<longrightarrow>
        accept_soldier valid (all_soldiers, seen_names) s = (all_soldiers, seen_names))"
  by (simp add: combine_soldiers merged_soldiers_accepted deduplicate_accepted accepted_distinct
      distinct_map_take accept_soldier_def)

theorem reconciler_identities_distinct_witness:
  "distinct (map name (soldiers (combine_and_validate
      [\<lparr> soldiers = [john_tan_35], method_name = ''azure_ocr'' \<rparr>,
       \<lparr> soldiers = [john_tan_38], method_name = ''pattern_based'' \<rparr>])))
   \<and> distinct (map name (deduplicate_and_validate [john_tan_35, john_tan_38]))
   \<and> accept_soldier validate_soldier_data ([john_tan_35], {''JOHN TAN''}) john_tan_38
       = ([john_tan_35], {''JOHN TAN''})"
proof -
  have seen: "name john_tan_38 \<in> {''JOHN TAN''}"
    by (simp add: john_tan_38_def)
  from seen reconciler_identities_distinct
    [of "[\<lparr> soldiers = [john_tan_35], method_name = ''azure_ocr'' \<rparr>,
          \<lparr> soldiers = [john_tan_38], method_name = ''pattern_based'' \<rparr>]"
        "[john_tan_35, john_tan_38]"
        john_tan_38 "{''JOHN TAN''}" validate_soldier_data "[john_tan_35]"]
  show ?thesis by blast
qed

subsection \<open>The ranges of the fields\<close>













subsection \<open>Priority\<close>

text \<open>
  C5, as stated, fails in two ways. A higher-priority candidate that does not pass
  validation (here: a name with no performance data) leaves its name unseen, and the
  lower-priority candidate with the same name is returned. A higher-priority candidate
  accepted after ten others is cut off by the cap, and the output has no record of that
  name at all.
\<close>

theorem higher_priority_counterexample:
  "result_soldiers (extract_ippt_data (Inr [john_tan_no_data]) (Inr [john_tan_38]) (Inr []) None)
     = [john_tan_38]
   \<and> map name (result_soldiers (extract_ippt_data
        (Inr (ten_others @ [john_tan_35])) (Inr [john_tan_38]) (Inr []) None))
     = [''AA'', ''AB'', ''AC'', ''AD'', ''AE'', ''AF'', ''AG'', ''AH'', ''AI'', ''AJ'']"
  by code_simp

text \<open>
  C5, amended. Every record the Reconciler returns is, whole and unchanged, the first
  candidate of its name that passes validation, in priority order (the \<open>azure_ocr\<close>
  candidates, then \<open>pattern_based\<close>, then \<open>fallback\<close>); conversely the first valid candidate
  of a name is always accepted into the merged list, of which the output is the first
  ten records. So of two candidates with one name the higher-priority one is kept, and
  the other dropped as a whole, whenever the higher-priority one passes validation and
  is among the first ten accepted; fields of two candidates are never mixed.
\<close>

theorem first_valid_candidate_kept:
  "(r \<in> set (soldiers (combine_and_validate results)) \<longrightarrow>
      find (\<lambda>c. name c = name r \<and> validate_soldier_data c) (candidates_in_priority_order results)
        = Some r)
   \<and> (find (\<lambda>c. name c = n \<and> validate_soldier_data c) (candidates_in_priority_order results)
        = Some a \<longrightarrow> a \<in> set (merged_soldiers results))
   \<and> soldiers (combine_and_validate results) = take 10 (merged_soldiers results)
   \<and> candidates_in_priority_order
        [azure_ocr_extraction (Inr hp), pattern_based_extraction (Inr mp),
         fallback_extraction (Inr lp)] = hp @ mp @ lp"
proof (intro conjI impI)
  assume "r \<in> set (soldiers (combine_and_validate results))"
  then have "r \<in> set (accepted validate_soldier_data {} (candidates_in_priority_order results))"
    by (auto simp: combine_soldiers merged_soldiers_accepted dest: in_set_takeD)
  then show "find (\<lambda>c. name c = name r \<and> validate_soldier_data c)
               (candidates_in_priority_order results) = Some r"
    by (rule accepted_first_valid) (rule validate_soldier_data_name)
next
  assume "find (\<lambda>c. name c = n \<and> validate_soldier_data c) (candidates_in_priority_order results)
            = Some a"
  then have "a \<in> set (accepted validate_soldier_data {} (candidates_in_priority_order results))"
    by (rule find_accepted) (simp_all add: validate_soldier_data_name)
  then show "a \<in> set (merged_soldiers results)"
    by (simp add: merged_soldiers_accepted)
next
  show "soldiers (combine_and_validate results) = take 10 (merged_soldiers results)"
    by (rule combine_soldiers)
next
  show "candidates_in_priority_order
        [azure_ocr_extraction (Inr hp), pattern_based_extraction (Inr mp),
         fallback_extraction (Inr lp)] = hp @ mp @ lp"
    by (rule candidates_of_three_methods)
qed

text \<open>The scenario of the specification: 35 sit-ups from the first method, 38 from the second.\<close>

theorem first_valid_candidate_kept_witness:
  "john_tan_35 \<in> set (soldiers (combine_and_validate
       [azure_ocr_extraction (Inr [john_tan_35]), pattern_based_extraction (Inr [john_tan_38]),
        fallback_extraction (Inr [])]))
   \<and> find (\<lambda>c. name c = name john_tan_35 \<and> validate_soldier_data c)
        (candidates_in_priority_order
          [azure_ocr_extraction (Inr [john_tan_35]), pattern_based_extraction (Inr [john_tan_38]),
           fallback_extraction (Inr [])]) = Some john_tan_35
   \<and> john_tan_35 \<in> set (merged_soldiers
       [azure_ocr_extraction (Inr [john_tan_35]), pattern_based_extraction (Inr [john_tan_38]),
        fallback_extraction (Inr [])])"
proof -
  have a: "john_tan_35 \<in> set (soldiers (combine_and_validate
       [azure_ocr_extraction (Inr [john_tan_35]), pattern_based_extraction (Inr [john_tan_38]),
        fallback_extraction (Inr [])]))"
    by code_simp
  note t = first_valid_candidate_kept
    [where r = john_tan_35 and n = "name john_tan_35" and a = john_tan_35
       and hp = "[john_tan_35]" and mp = "[john_tan_38]" and lp = "[]"
       and results = "[azure_ocr_extraction (Inr [john_tan_35]),
                       pattern_based_extraction (Inr [john_tan_38]),
                       fallback_extraction (Inr [])]"]
  from t have "john_tan_35 \<in> set (soldiers (combine_and_validate
       [azure_ocr_extraction (Inr [john_tan_35]), pattern_based_extraction (Inr [john_tan_38]),
        fallback_extraction (Inr [])])) \<longrightarrow>
     find (\<lambda>c. name c = name john_tan_35 \<and> validate_soldier_data c)
        (candidates_in_priority_order
          [azure_ocr_extraction (Inr [john_tan_35]), pattern_based_extraction (Inr [john_tan_38]),
           fallback_extraction (Inr [])]) = Some john_tan_35"
    by (rule conjunct1)
  from this a have f: "find (\<lambda>c. name c = name john_tan_35 \<and> validate_soldier_data c)
        (candidates_in_priority_order
          [azure_ocr_extraction (Inr [john_tan_35]), pattern_based_extraction (Inr [john_tan_38]),
           fallback_extraction (Inr [])]) = Some john_tan_35"
    by (rule mp)
  from t have "find (\<lambda>c. name c = name john_tan_35 \<and> validate_soldier_data c)
        (candidates_in_priority_order
          [azure_ocr_extraction (Inr [john_tan_35]), pattern_based_extraction (Inr [john_tan_38]),
           fallback_extraction (Inr [])]) = Some john_tan_35 \<longrightarrow>
     john_tan_35 \<in> set (merged_soldiers
       [azure_ocr_extraction (Inr [john_tan_35]), pattern_based_extraction (Inr [john_tan_38]),
        fallback_extraction (Inr [])])"
    by (rule conjunct1 [OF conjunct2])
  from this f have m: "john_tan_35 \<in> set (merged_soldiers
       [azure_ocr_extraction (Inr [john_tan_35]), pattern_based_extraction (Inr [john_tan_38]),
        fallback_extraction (Inr [])])"
    by (rule mp)
  from a f m show ?thesis by (intro conjI)
qed

section \<open>The Positional Extractor reads the layout\<close>

lemma read_name_slot:
  "read_name lines pos sd = Inr (if pos + 2 < length lines then sd\<lparr>name := slot_identity lines (pos + 2)\<rparr> else sd)"
  by (simp add: read_name_def py_get_def bind_err_def slot_identity_def line_at_def Let_def)

lemma read_offset_situp:
  "sit_up_reps sd = 0 \<Longrightarrow>
   read_offset lines pos sd (k, ''situp'') =
     (if overlong_at lines (pos + k) then Inl ValueError
      else Inr (sd\<lparr>sit_up_reps := slot_metric lines (pos + k)\<rparr>))"
  by (simp add: read_offset_def py_get_def bind_err_def slot_metric_def overlong_at_def
      line_at_def Let_def re_match_digits_strip py_int_digits)

lemma read_offset_pushup:
  "push_up_reps sd = 0 \<Longrightarrow>
   read_offset lines pos sd (k, ''pushup'') =
     (if overlong_at lines (pos + k) then Inl ValueError
      else Inr (sd\<lparr>push_up_reps := slot_metric lines (pos + k)\<rparr>))"
  by (simp add: read_offset_def py_get_def bind_err_def slot_metric_def overlong_at_def
      line_at_def Let_def re_match_digits_strip py_int_digits)

lemma read_offset_run:
  "run_time sd = [] \<Longrightarrow>
   read_offset lines pos sd (k, ''run'') = Inr (sd\<lparr>run_time := slot_run_time lines (pos + k)\<rparr>)"
  by (simp add: read_offset_def py_get_def bind_err_def slot_run_time_def line_at_def Let_def
      re_match_time_strip)

lemma slot_identity_past_end: "\<not> i < length lines \<Longrightarrow> slot_identity lines i = []"
  by (simp add: slot_identity_def line_at_def)

lemma read_name_empty:
  "read_name lines pos empty_soldier = Inr (empty_soldier\<lparr>name := slot_identity lines (pos + 2)\<rparr>)"
  by (simp add: read_name_slot slot_identity_past_end empty_soldier_def)

lemma fold_offsets:
  "fold_err (read_offset lines pos) (empty_soldier\<lparr>name := n\<rparr>)
     [(i, ''situp''), (j, ''pushup''), (k, ''run'')]
   = (if overlong_at lines (pos + i) \<or> overlong_at lines (pos + j) then Inl ValueError
      else Inr \<lparr> name = n, sit_up_reps = slot_metric lines (pos + i),
                 push_up_reps = slot_metric lines (pos + j),
                 run_time = slot_run_time lines (pos + k) \<rparr>)"
  by (simp add: read_offset_situp read_offset_pushup read_offset_run bind_err_def
      empty_soldier_def)

text \<open>
  For every line sequence, position and serial: the routine raises ValueError when one of
  the two lines it reads as counts has more digits than \<open>int\<close> converts, and otherwise
  returns the record of the layout, read at \<open>pos + 7, pos + 8, pos + 9\<close> when the serial is
  the string \<open>'1'\<close> and at \<open>pos + 6, pos + 7, pos + 8\<close> when it is anything else.
\<close>

lemma extract_soldier_at_position_eq:
  "extract_soldier_at_position lines pos serial =
     (if positional_overlong lines pos (serial = SerialStr ''1'') then Inl ValueError
      else Inr (if name (positional_record lines pos (serial = SerialStr ''1'')) \<noteq> []
                then Some (positional_record lines pos (serial = SerialStr ''1'')) else None))"
proof (cases "serial = SerialStr ''1''")
  case True
  have rec: "\<lparr> name = slot_identity lines (pos + 2), sit_up_reps = slot_metric lines (pos + 7),
           push_up_reps = slot_metric lines (pos + 8),
           run_time = slot_run_time lines (pos + 9) \<rparr> = positional_record lines pos True"
    by (simp add: positional_record_def)
  have over: "(overlong_at lines (pos + 7) \<or> overlong_at lines (pos + 8))
      = positional_overlong lines pos True"
    by (simp add: positional_overlong_def)
  from True have "extract_soldier_at_position lines pos serial =
      bind_err (fold_err (read_offset lines pos)
                  (empty_soldier\<lparr>name := slot_identity lines (pos + 2)\<rparr>)
                  [(7, ''situp''), (8, ''pushup''), (9, ''run'')])
        (\<lambda>sd. Inr (if name sd \<noteq> [] then Some sd else None))"
    by (simp only: extract_soldier_at_position_def read_name_empty bind_err_Inr Let_def if_True simp_thms)
  also have "\<dots> = (if positional_overlong lines pos True then Inl ValueError
                    else Inr (if name (positional_record lines pos True) \<noteq> []
                              then Some (positional_record lines pos True) else None))"
    by (cases "positional_overlong lines pos True")
      (simp_all only: fold_offsets over rec bind_err_Inr bind_err_Inl if_True if_False)
  finally show ?thesis using True by simp
next
  case False
  have rec: "\<lparr> name = slot_identity lines (pos + 2), sit_up_reps = slot_metric lines (pos + 6),
           push_up_reps = slot_metric lines (pos + 7),
           run_time = slot_run_time lines (pos + 8) \<rparr> = positional_record lines pos False"
    by (simp add: positional_record_def)
  have over: "(overlong_at lines (pos + 6) \<or> overlong_at lines (pos + 7))
      = positional_overlong lines pos False"
    by (simp add: positional_overlong_def)
  from False have "extract_soldier_at_position lines pos serial =
      bind_err (fold_err (read_offset lines pos)
                  (empty_soldier\<lparr>name := slot_identity lines (pos + 2)\<rparr>)
                  [(6, ''situp''), (7, ''pushup''), (8, ''run'')])
        (\<lambda>sd. Inr (if name sd \<noteq> [] then Some sd else None))"
    by (simp only: extract_soldier_at_position_def read_name_empty bind_err_Inr Let_def if_False simp_thms)
  also have "\<dots> = (if positional_overlong lines pos False then Inl ValueError
                    else Inr (if name (positional_record lines pos False) \<noteq> []
                              then Some (positional_record lines pos False) else None))"
    by (cases "positional_overlong lines pos False")
      (simp_all only: fold_offsets over rec bind_err_Inr bind_err_Inl if_True if_False)
  finally show ?thesis using False by simp
qed

lemma extract_soldier_at_position_no_IndexError:
  "extract_soldier_at_position lines pos serial \<noteq> Inl IndexError"
  by (simp add: extract_soldier_at_position_eq)

text \<open>
  With a serial of the table of positions, a string, this is the layout of the claim.
  \<open>_serial_number_strategy\<close> calls the routine with \<open>int(line.strip())\<close>: an \<open>int\<close> never
  equals the string \<open>'1'\<close>, and every record, the first one too, is read at
  \<open>pos + 6, pos + 7, pos + 8\<close>.
\<close>

lemma extract_soldier_at_position_str:
  "\<not> positional_overlong lines pos (serial = ''1'') \<Longrightarrow>
   extract_soldier_at_position lines pos (SerialStr serial) =
     Inr (if name (positional_record lines pos (serial = ''1'')) \<noteq> []
          then Some (positional_record lines pos (serial = ''1'')) else None)"
  using extract_soldier_at_position_eq [of lines pos "SerialStr serial"] by simp

lemma extract_soldier_at_position_int:
  "\<not> positional_overlong lines pos False \<Longrightarrow>
   extract_soldier_at_position lines pos (SerialInt n) =
     Inr (if name (positional_record lines pos False) \<noteq> []
          then Some (positional_record lines pos False) else None)"
  using extract_soldier_at_position_eq [of lines pos "SerialInt n"] by simp

lemma strip_replicate_digit: "strip (replicate n (CHR ''7'')) = replicate n (CHR ''7'')"
  by (rule strip_digits) (simp add: list_all_iff is_digit_def)

lemma overlong_line_raises:
  "extract_soldier_at_position overlong_lines 0 (SerialStr ''1'') = Inl ValueError"
proof -
  have "overlong_at overlong_lines (0 + 7)"
    by (simp add: overlong_at_def line_at_def overlong_lines_def scenario_lines_def
        strip_replicate_digit all_digits_def int_max_str_digits_def list_all_iff is_digit_def)
  then have "positional_overlong overlong_lines 0 (SerialStr ''1'' = SerialStr ''1'')"
    by (simp add: positional_overlong_def)
  then show ?thesis by (simp only: extract_soldier_at_position_eq if_True)
qed

text \<open>
  C4. On the scenario of the specification (the serial at index 0, the name at 2, the
  three fields at 7, 8, 9) the routine called with the string \<open>'1'\<close> returns the record
  of the layout, 35 sit-ups, 40 push-ups and the run time \<open>9:30\<close>. \<open>_serial_number_strategy\<close>,
  which finds the serial at index 0 and calls the routine with the number 1, returns 0
  sit-ups (the line at 6 is not a number), 35 push-ups (the line at 7) and no run time
  (the line at 8 is not a time); and this record is the one \<open>extract_ippt_data\<close> returns
  for a file of these lines.
\<close>

theorem serial_anchor_misreads_first_record:
  "extract_soldier_at_position scenario_lines 0 (SerialStr ''1'') =
     Inr (Some \<lparr> name = ''JOHN TAN'', sit_up_reps = 35, push_up_reps = 40, run_time = ''9:30'' \<rparr>)
   \<and> positional_record scenario_lines 0 True =
     \<lparr> name = ''JOHN TAN'', sit_up_reps = 35, push_up_reps = 40, run_time = ''9:30'' \<rparr>
   \<and> extract_soldier_at_position scenario_lines 0 (SerialInt 1) =
     Inr (Some \<lparr> name = ''JOHN TAN'', sit_up_reps = 0, push_up_reps = 35, run_time = [] \<rparr>)
   \<and> serial_number_strategy scenario_lines =
     Inr [\<lparr> name = ''JOHN TAN'', sit_up_reps = 0, push_up_reps = 35, run_time = [] \<rparr>]
   \<and> result_soldiers (extract_from_inputs (Inr (image_lines [])) (Inr scenario_lines)
        (Inr scenario_lines) None) =
     [\<lparr> name = ''JOHN TAN'', sit_up_reps = 0, push_up_reps = 35, run_time = [] \<rparr>]"
  by code_simp

section \<open>The result object\<close>

lemma combine_success:
  "success (combine_and_validate results) = (total_soldiers (combine_and_validate results) > 0)
   \<and> total_soldiers (combine_and_validate results) = length (soldiers (combine_and_validate results))"
  by (simp add: combine_and_validate_def Let_def)

lemma ep_extract_success:
  "success (ep_extract_ippt_data working backup)
     = (total_soldiers (ep_extract_ippt_data working backup) > 0)
   \<and> total_soldiers (ep_extract_ippt_data working backup)
     = length (soldiers (ep_extract_ippt_data working backup))"
  by (simp add: ep_extract_ippt_data_def Let_def)

lemma combine_no_candidates:
  assumes "candidates_in_priority_order results = []"
  shows "combine_and_validate results =
     \<lparr> soldiers = [], method_name = ''foolproof_multi_layer'', total_soldiers = 0, success = False \<rparr>"
  using assms by (simp add: combine_and_validate_def Let_def merged_soldiers_accepted)

lemma no_soldiers_no_candidates:
  assumes "list_all (\<lambda>m. soldiers m = []) results"
  shows "candidates_in_priority_order results = []"
  using assms by (auto simp: candidates_in_priority_order_def list_all_iff)

lemma failed_method_soldiers:
  "soldiers (azure_ocr_extraction (Inl e)) = []"
  "soldiers (pattern_based_extraction (Inl e)) = []"
  "soldiers (fallback_extraction (Inl e)) = []"
  by (simp_all add: azure_ocr_extraction_def pattern_based_extraction_def fallback_extraction_def)

lemma empty_result_contributes_nothing:
  assumes "soldiers r = []"
  shows "candidates_in_priority_order (pre @ r # post) = candidates_in_priority_order (pre @ post)"
proof -
  have "concat (map soldiers (filter (\<lambda>x. method_name x = m) (pre @ r # post)))
        = concat (map soldiers (filter (\<lambda>x. method_name x = m) (pre @ post)))" for m
    using assms by simp
  then show ?thesis by (simp add: candidates_in_priority_order_def)
qed

lemma combine_depends_on_candidates:
  assumes "candidates_in_priority_order rs = candidates_in_priority_order rs'"
  shows "combine_and_validate rs = combine_and_validate rs'"
  using assms by (simp add: combine_and_validate_def merged_soldiers_accepted)

lemma extract_ippt_data_depends_on_candidates:
  assumes "candidates_in_priority_order
             [azure_ocr_extraction a, pattern_based_extraction p, fallback_extraction f]
           = candidates_in_priority_order
             [azure_ocr_extraction a', pattern_based_extraction p', fallback_extraction f']"
  shows "extract_ippt_data a p f export = extract_ippt_data a' p' f' export"
  using combine_depends_on_candidates [OF assms] by (simp add: extract_ippt_data_def)

text \<open>A method that raises counts as a method that found nothing.\<close>

lemma raising_method_is_empty:
  "extract_ippt_data (Inl e) p f export = extract_ippt_data (Inr []) p f export"
  "extract_ippt_data a (Inl e) f export = extract_ippt_data a (Inr []) f export"
  "extract_ippt_data a p (Inl e) export = extract_ippt_data a p (Inr []) export"
proof -
  have drop: "candidates_in_priority_order (pre @ r # post) = candidates_in_priority_order (pre @ r' # post)"
    if "soldiers r = []" and "soldiers r' = []" for pre post and r r' :: method_result
    using that by (simp add: empty_result_contributes_nothing)
  have "candidates_in_priority_order ([] @ azure_ocr_extraction (Inl e) # [pattern_based_extraction p, fallback_extraction f])
     = candidates_in_priority_order ([] @ azure_ocr_extraction (Inr []) # [pattern_based_extraction p, fallback_extraction f])"
    by (rule drop) (simp_all add: azure_ocr_extraction_def)
  then show "extract_ippt_data (Inl e) p f export = extract_ippt_data (Inr []) p f export"
    by (intro extract_ippt_data_depends_on_candidates) simp
  have "candidates_in_priority_order ([azure_ocr_extraction a] @ pattern_based_extraction (Inl e) # [fallback_extraction f])
     = candidates_in_priority_order ([azure_ocr_extraction a] @ pattern_based_extraction (Inr []) # [fallback_extraction f])"
    by (rule drop) (simp_all add: pattern_based_extraction_def)
  then show "extract_ippt_data a (Inl e) f export = extract_ippt_data a (Inr []) f export"
    by (intro extract_ippt_data_depends_on_candidates) simp
  have "candidates_in_priority_order ([azure_ocr_extraction a, pattern_based_extraction p] @ fallback_extraction (Inl e) # [])
     = candidates_in_priority_order ([azure_ocr_extraction a, pattern_based_extraction p] @ fallback_extraction (Inr []) # [])"
    by (rule drop) (simp_all add: fallback_extraction_def)
  then show "extract_ippt_data a p (Inl e) export = extract_ippt_data a p (Inr []) export"
    by (intro extract_ippt_data_depends_on_candidates) simp
qed

lemma all_methods_raise:
  "extract_ippt_data (Inl e1) (Inl e2) (Inl e3) None =
     Result \<lparr> soldiers = [], method_name = ''foolproof_multi_layer'', total_soldiers = 0,
              success = False \<rparr>"
proof -
  have "candidates_in_priority_order
          [azure_ocr_extraction (Inl e1), pattern_based_extraction (Inl e2),
           fallback_extraction (Inl e3)] = []"
    by (simp add: candidates_in_priority_order_def failed_method_soldiers)
  then have "combine_and_validate
          [azure_ocr_extraction (Inl e1), pattern_based_extraction (Inl e2),
           fallback_extraction (Inl e3)] =
     \<lparr> soldiers = [], method_name = ''foolproof_multi_layer'', total_soldiers = 0, success = False \<rparr>"
    by (rule combine_no_candidates)
  then show ?thesis by (simp add: extract_ippt_data_def)
qed

lemma extract_ippt_data_exported:
  "extract_ippt_data a p f None =
     Result (combine_and_validate
       [azure_ocr_extraction a, pattern_based_extraction p, fallback_extraction f])"
  by (simp add: extract_ippt_data_def)

lemma ep_strategies_raise:
  "ep_working_line_based_strategy (Inl e) = []"
  "ep_azure_ocr_strategy (Inl e) = []"
  by (simp_all add: ep_working_line_based_strategy_def ep_azure_ocr_strategy_def)

lemma ep_no_candidates:
  "ep_extract_ippt_data [] [] =
     \<lparr> soldiers = [], method_name = ''foolproof_hybrid'', total_soldiers = 0, success = False \<rparr>"
  by (simp add: ep_extract_ippt_data_def deduplicate_and_validate_def)

text \<open>
  Outside the Reconciler: \<open>extract_ippt_data\<close> of foolproof\_ocr\_parser.py writes the merged
  result to a file before it returns it. When that export raises, what is returned is the
  value of the outer \<open>except\<close>, which has neither a count nor a success field.
\<close>

lemma export_failure_loses_result:
  "extract_ippt_data a p f (Some e) = ErrorResult e"
  by (simp add: extract_ippt_data_def)

text \<open>
  C6. The result the Reconciler builds has its success field equal to (count > 0) and
  its count equal to the number of records, in \<open>_combine_and_validate\<close> and in the
  endpoint's \<open>extract_ippt_data\<close>. When no result holds a candidate, it is the empty list
  with count 0 and success false. A method whose extraction raises returns no candidate
  under a name of failure, and the merged result is the one obtained had it found
  nothing; when all three raise the result is the empty one. In the endpoint a strategy
  that raises at once returns no candidate, and two such strategies give the empty
  result.
\<close>

theorem reconciler_result_object:
  "success (combine_and_validate results) = (total_soldiers (combine_and_validate results) > 0)
   \<and> total_soldiers (combine_and_validate results) = length (soldiers (combine_and_validate results))
   \<and> (list_all (\<lambda>m. soldiers m = []) results \<longrightarrow>
        combine_and_validate results =
          \<lparr> soldiers = [], method_name = ''foolproof_multi_layer'', total_soldiers = 0,
            success = False \<rparr>)
   \<and> extract_ippt_data a p f None =
        Result (combine_and_validate
          [azure_ocr_extraction a, pattern_based_extraction p, fallback_extraction f])
   \<and> extract_ippt_data (Inl e) p f export = extract_ippt_data (Inr []) p f export
   \<and> extract_ippt_data a (Inl e) f export = extract_ippt_data a (Inr []) f export
   \<and> extract_ippt_data a p (Inl e) export = extract_ippt_data a p (Inr []) export
   \<and> extract_ippt_data (Inl e1) (Inl e2) (Inl e3) None =
        Result \<lparr> soldiers = [], method_name = ''foolproof_multi_layer'', total_soldiers = 0,
                 success = False \<rparr>
   \<and> success (ep_extract_ippt_data working backup)
        = (total_soldiers (ep_extract_ippt_data working backup) > 0)
   \<and> total_soldiers (ep_extract_ippt_data working backup)
        = length (soldiers (ep_extract_ippt_data working backup))
   \<and> ep_extract_from_inputs (Inl e1) (Inl e2) =
        \<lparr> soldiers = [], method_name = ''foolproof_hybrid'', total_soldiers = 0, success = False \<rparr>"
proof (intro conjI impI)
  show "success (combine_and_validate results) = (total_soldiers (combine_and_validate results) > 0)"
    using combine_success [of results] by (rule conjunct1)
  show "total_soldiers (combine_and_validate results) = length (soldiers (combine_and_validate results))"
    using combine_success [of results] by (rule conjunct2)
  show "extract_ippt_data a p f None =
        Result (combine_and_validate
          [azure_ocr_extraction a, pattern_based_extraction p, fallback_extraction f])"
    by (rule extract_ippt_data_exported)
  show "extract_ippt_data (Inl e) p f export = extract_ippt_data (Inr []) p f export"
    by (rule raising_method_is_empty)
  show "extract_ippt_data a (Inl e) f export = extract_ippt_data a (Inr []) f export"
    by (rule raising_method_is_empty)
  show "extract_ippt_data a p (Inl e) export = extract_ippt_data a p (Inr []) export"
    by (rule raising_method_is_empty)
  show "extract_ippt_data (Inl e1) (Inl e2) (Inl e3) None =
        Result \<lparr> soldiers = [], method_name = ''foolproof_multi_layer'', total_soldiers = 0,
                 success = False \<rparr>"
    by (rule all_methods_raise)
  show "success (ep_extract_ippt_data working backup)
        = (total_soldiers (ep_extract_ippt_data working backup) > 0)"
    using ep_extract_success [of working backup] by (rule conjunct1)
  show "total_soldiers (ep_extract_ippt_data working backup)
        = length (soldiers (ep_extract_ippt_data working backup))"
    using ep_extract_success [of working backup] by (rule conjunct2)
  show "ep_extract_from_inputs (Inl e1) (Inl e2) =
        \<lparr> soldiers = [], method_name = ''foolproof_hybrid'', total_soldiers = 0, success = False \<rparr>"
    by (simp only: ep_extract_from_inputs_def ep_strategies_raise ep_no_candidates)
next
  assume "list_all (\<lambda>m. soldiers m = []) results"
  then have "candidates_in_priority_order results = []" by (rule no_soldiers_no_candidates)
  then show "combine_and_validate results =
          \<lparr> soldiers = [], method_name = ''foolproof_multi_layer'', total_soldiers = 0,
            success = False \<rparr>"
    by (rule combine_no_candidates)
qed

text \<open>
  The scenario of the specification: every strategy returns zero candidates, one of them
  by raising.
\<close>

theorem reconciler_result_object_witness:
  "list_all (\<lambda>m. soldiers m = [])
     [azure_ocr_extraction (Inl IOError), pattern_based_extraction (Inr []),
      fallback_extraction (Inr [])]
   \<and> combine_and_validate
        [azure_ocr_extraction (Inl IOError), pattern_based_extraction (Inr []),
         fallback_extraction (Inr [])] =
       \<lparr> soldiers = [], method_name = ''foolproof_multi_layer'', total_soldiers = 0,
         success = False \<rparr>"
proof -
  have a: "list_all (\<lambda>m. soldiers m = [])
     [azure_ocr_extraction (Inl IOError), pattern_based_extraction (Inr []),
      fallback_extraction (Inr [])]"
    by (simp add: azure_ocr_extraction_def pattern_based_extraction_def fallback_extraction_def)
  note t = reconciler_result_object
    [where results = "[azure_ocr_extraction (Inl IOError), pattern_based_extraction (Inr []),
      fallback_extraction (Inr [])]"]
  from t have "list_all (\<lambda>m. soldiers m = [])
       [azure_ocr_extraction (Inl IOError), pattern_based_extraction (Inr []),
        fallback_extraction (Inr [])] \<longrightarrow>
     combine_and_validate
        [azure_ocr_extraction (Inl IOError), pattern_based_extraction (Inr []),
         fallback_extraction (Inr [])] =
       \<lparr> soldiers = [], method_name = ''foolproof_multi_layer'', total_soldiers = 0,
         success = False \<rparr>"
    by (rule conjunct1 [OF conjunct2 [OF conjunct2]])
  from this a have b: "combine_and_validate
        [azure_ocr_extraction (Inl IOError), pattern_based_extraction (Inr []),
         fallback_extraction (Inr [])] =
       \<lparr> soldiers = [], method_name = ''foolproof_multi_layer'', total_soldiers = 0,
         success = False \<rparr>"
    by (rule mp)
  from a b show ?thesis by (rule conjI)
qed

section \<open>Identity normalization\<close>

lemma replace_PTE_head: "str_replace ''PTE'' [] (''PTE'' @ b) = str_replace ''PTE'' [] b"
  by simp

lemma prefix_PTE_append:
  "prefix ''PTE'' (a @ ''PTE'' @ b) \<longleftrightarrow> a = [] \<or> prefix ''PTE'' a"
proof (cases a)
  case Nil
  then show ?thesis by simp
next
  case (Cons x xs)
  show ?thesis
  proof (cases xs)
    case Nil
    with Cons show ?thesis by auto
  next
    case (Cons y ys)
    show ?thesis
    proof (cases ys)
      case Nil
      with \<open>a = x # xs\<close> \<open>xs = y # ys\<close> show ?thesis by auto
    next
      case (Cons z zs)
      with \<open>a = x # xs\<close> \<open>xs = y # ys\<close> show ?thesis by auto
    qed
  qed
qed

lemma str_replace_no_prefix:
  "\<not> prefix old (c # cs) \<Longrightarrow> str_replace old new (c # cs) = c # str_replace old new cs"
  by simp

lemma replace_PTE_anywhere:
  "str_replace ''PTE'' [] (a @ ''PTE'' @ b) = str_replace ''PTE'' [] a @ str_replace ''PTE'' [] b"
proof (induction "length a" arbitrary: a rule: less_induct)
  case less
  show ?case
  proof (cases a)
    case Nil
    then show ?thesis by simp
  next
    case (Cons c cs)
    show ?thesis
    proof (cases "prefix ''PTE'' a")
      case True
      then obtain r where r: "a = ''PTE'' @ r" by (auto simp: prefix_def)
      then have "length r < length a" by simp
      from less [OF this] r show ?thesis by simp
    next
      case False
      with prefix_PTE_append [of a b] Cons have "\<not> prefix ''PTE'' (c # (cs @ ''PTE'' @ b))"
        by simp
      then have l: "str_replace ''PTE'' [] (c # (cs @ ''PTE'' @ b))
          = c # str_replace ''PTE'' [] (cs @ ''PTE'' @ b)"
        by (rule str_replace_no_prefix)
      from False Cons have "\<not> prefix ''PTE'' (c # cs)" by simp
      then have r: "str_replace ''PTE'' [] (c # cs) = c # str_replace ''PTE'' [] cs"
        by (rule str_replace_no_prefix)
      have "length cs < length a" using Cons by simp
      from less [OF this] have ih: "str_replace ''PTE'' [] (cs @ ''PTE'' @ b)
          = str_replace ''PTE'' [] cs @ str_replace ''PTE'' [] b" .
      have "str_replace ''PTE'' [] (a @ ''PTE'' @ b) = str_replace ''PTE'' [] (c # (cs @ ''PTE'' @ b))"
        using Cons by simp
      also have "\<dots> = c # (str_replace ''PTE'' [] cs @ str_replace ''PTE'' [] b)"
        by (simp only: l ih)
      also have "\<dots> = str_replace ''PTE'' [] a @ str_replace ''PTE'' [] b"
        by (simp only: Cons r append_Cons)
      finally show ?thesis .
    qed
  qed
qed

lemma replace_PTE_absent: "\<not> contains ''PTE'' l \<Longrightarrow> str_replace ''PTE'' [] l = l"
  by (induction l) auto

text \<open>
  C9. The identity is the name line stripped, with \<open>PTE\<close> replaced by nothing, stripped
  again. The replacement deletes an occurrence of \<open>PTE\<close> wherever it stands in the line,
  and a line in which \<open>PTE\<close> does not occur keeps all its characters: no other rank
  marker is removed.
\<close>

theorem identity_normalization:
  "(pos + 2 < length lines \<longrightarrow>
      read_name lines pos sd =
        Inr (sd\<lparr>name := strip (str_replace ''PTE'' [] (strip (lines ! (pos + 2))))\<rparr>))
   \<and> (extract_soldier_at_position lines pos serial = Inr (Some s) \<longrightarrow>
        pos + 2 < length lines
        \<and> name s = strip (str_replace ''PTE'' [] (strip (lines ! (pos + 2)))))
   \<and> str_replace ''PTE'' [] (a @ ''PTE'' @ b) = str_replace ''PTE'' [] a @ str_replace ''PTE'' [] b
   \<and> (\<not> contains ''PTE'' l \<longrightarrow> str_replace ''PTE'' [] l = l)"
proof (intro conjI impI)
  assume "pos + 2 < length lines"
  then show "read_name lines pos sd =
        Inr (sd\<lparr>name := strip (str_replace ''PTE'' [] (strip (lines ! (pos + 2))))\<rparr>)"
    by (simp add: read_name_slot slot_identity_def line_at_def)
next
  assume e: "extract_soldier_at_position lines pos serial = Inr (Some s)"
  then have n: "name s = slot_identity lines (pos + 2)" and ne: "name s \<noteq> []"
    by (auto simp: extract_soldier_at_position_eq positional_record_def split: if_splits)
  from n ne show "pos + 2 < length lines"
    by (auto simp: slot_identity_def line_at_def split: if_splits)
  with n show "name s = strip (str_replace ''PTE'' [] (strip (lines ! (pos + 2))))"
    by (simp add: slot_identity_def line_at_def)
next
  show "str_replace ''PTE'' [] (a @ ''PTE'' @ b) = str_replace ''PTE'' [] a @ str_replace ''PTE'' [] b"
    by (rule replace_PTE_anywhere)
next
  assume "\<not> contains ''PTE'' l"
  then show "str_replace ''PTE'' [] l = l" by (rule replace_PTE_absent)
qed

theorem identity_normalization_witness:
  "read_name scenario_lines 0 empty_soldier = Inr (empty_soldier\<lparr>name := ''JOHN TAN''\<rparr>)
   \<and> str_replace ''PTE'' [] (''CAPTEN LEE'' @ ''PTE'' @ '' TAN'') = ''CAN LEE TAN''
   \<and> str_replace ''PTE'' [] ''CPL JOHN TAN'' = ''CPL JOHN TAN''"
proof -
  note t = identity_normalization
    [where pos = 0 and lines = scenario_lines and sd = empty_soldier and serial = "SerialStr ''1''"
       and s = empty_soldier and a = "''CAPTEN LEE''" and b = "'' TAN''" and l = "''CPL JOHN TAN''"]
  have len: "0 + 2 < length scenario_lines" by (simp add: scenario_lines_def)
  have nm: "strip (str_replace ''PTE'' [] (strip (scenario_lines ! (0 + 2)))) = ''JOHN TAN''"
    by code_simp
  from t len have "read_name scenario_lines 0 empty_soldier =
      Inr (empty_soldier\<lparr>name := strip (str_replace ''PTE'' [] (strip (scenario_lines ! (0 + 2))))\<rparr>)"
    by blast
  then have 1: "read_name scenario_lines 0 empty_soldier = Inr (empty_soldier\<lparr>name := ''JOHN TAN''\<rparr>)"
    by (simp only: nm)
  have ra: "str_replace ''PTE'' [] ''CAPTEN LEE'' = ''CAN LEE''" by code_simp
  have rb: "str_replace ''PTE'' [] '' TAN'' = '' TAN''" by code_simp
  from t have "str_replace ''PTE'' [] (''CAPTEN LEE'' @ ''PTE'' @ '' TAN'')
      = str_replace ''PTE'' [] ''CAPTEN LEE'' @ str_replace ''PTE'' [] '' TAN''"
    by blast
  then have 2: "str_replace ''PTE'' [] (''CAPTEN LEE'' @ ''PTE'' @ '' TAN'') = ''CAN LEE TAN''"
    by (simp only: ra rb) simp
  have nc: "\<not> contains ''PTE'' ''CPL JOHN TAN''" by code_simp
  from t nc have 3: "str_replace ''PTE'' [] ''CPL JOHN TAN'' = ''CPL JOHN TAN''"
    by blast
  from 1 2 3 show ?thesis by (intro conjI)
qed

section \<open>The time validator\<close>

lemma match_time_here_at:
  "match_time_here t = (if hh_mm_at t 0 \<or> h_mm_at t 0 then Some (groups_at t 0) else None)"
  by (auto simp: match_time_here_def hh_mm_at_def h_mm_at_def groups_at_def split: list.splits)

lemma hh_mm_at_Suc: "hh_mm_at (c # cs) (Suc i) = hh_mm_at cs i"
  by (simp add: hh_mm_at_def add.commute)

lemma h_mm_at_Suc: "h_mm_at (c # cs) (Suc i) = h_mm_at cs i"
  by (simp add: h_mm_at_def add.commute)

lemma groups_at_Suc: "groups_at (c # cs) (Suc i) = groups_at cs i"
  by (simp add: groups_at_def hh_mm_at_Suc add.commute)

lemma find_map_comp: "find P (map f xs) = map_option f (find (P \<circ> f) xs)"
  by (induction xs) auto

lemma find_upt_Suc:
  "find P [0..<Suc n] = (if P 0 then Some 0 else map_option Suc (find (P \<circ> Suc) [0..<n]))"
proof -
  have "[0..<Suc n] = 0 # map Suc [0..<n]"
    by (simp add: upt_conv_Cons map_Suc_upt del: upt_Suc)
  then show ?thesis by (simp add: find_map_comp del: upt_Suc)
qed

lemma first_time_at_Cons:
  "first_time_at (c # cs) =
     (if hh_mm_at (c # cs) 0 \<or> h_mm_at (c # cs) 0 then Some 0
      else map_option Suc (first_time_at cs))"
proof -
  have "(\<lambda>i. hh_mm_at (c # cs) i \<or> h_mm_at (c # cs) i) \<circ> Suc = (\<lambda>i. hh_mm_at cs i \<or> h_mm_at cs i)"
    by (simp add: fun_eq_iff hh_mm_at_Suc h_mm_at_Suc)
  moreover have "first_time_at (c # cs)
      = find (\<lambda>i. hh_mm_at (c # cs) i \<or> h_mm_at (c # cs) i) [0..<Suc (length cs)]"
    by (simp add: first_time_at_def del: upt_Suc)
  ultimately show ?thesis
    by (simp only: find_upt_Suc first_time_at_def)
qed

lemma re_search_time_at: "re_search_time s = map_option (groups_at s) (first_time_at s)"
proof (induction s)
  case Nil
  show ?case by (simp add: first_time_at_def)
next
  case (Cons c cs)
  show ?case
  proof (cases "hh_mm_at (c # cs) 0 \<or> h_mm_at (c # cs) 0")
    case True
    then show ?thesis by (simp add: match_time_here_at first_time_at_Cons)
  next
    case False
    then have "re_search_time (c # cs) = re_search_time cs"
      by (simp add: match_time_here_at)
    also have "\<dots> = map_option (groups_at cs) (first_time_at cs)" by (rule Cons.IH)
    also have "\<dots> = map_option (groups_at (c # cs)) (first_time_at (c # cs))"
      using False by (simp add: first_time_at_Cons option.map_comp comp_def groups_at_Suc)
    finally show ?thesis .
  qed
qed


lemma digit_val_less: "is_digit c \<Longrightarrow> digit_val c < 10"
  by (auto simp: is_digit_def digit_val_def)

lemma char_of_digit_val: "is_digit c \<Longrightarrow> char_of (48 + digit_val c) = c"
  by (simp add: is_digit_def digit_val_def)

lemma is_digit_char_of: "(k::nat) < 10 \<Longrightarrow> is_digit (char_of (48 + k))"
  by (simp add: is_digit_def)

lemma digit_val_char_of: "(k::nat) < 10 \<Longrightarrow> digit_val (char_of (48 + k)) = k"
  by (simp add: digit_val_def)

lemma digit_val_zero: "digit_val (CHR ''0'') = 0"
  by (simp add: digit_val_def)

lemma char_of_48: "char_of (48::nat) = CHR ''0''"
  using char_of_digit_val [of "CHR ''0''"] by (simp add: digit_val_zero is_digit_def)

lemma py_int_one: "is_digit a \<Longrightarrow> py_int [a] = Inr (int (digit_val a))"
  by (simp add: py_int_digits all_digits_def int_of_digits_def int_max_str_digits_def)

lemma py_int_two:
  "is_digit a \<Longrightarrow> is_digit b \<Longrightarrow> py_int [a, b] = Inr (int (10 * digit_val a + digit_val b))"
  by (simp add: py_int_digits all_digits_def int_of_digits_def int_max_str_digits_def)

lemma str_of_nat_decimal: "m < 100 \<Longrightarrow> str_of_nat m = decimal m"
proof -
  assume m: "m < 100"
  show ?thesis
  proof (cases "m < 10")
    case True
    then show ?thesis by (subst str_of_nat.simps) (simp add: decimal_def)
  next
    case False
    with m have "m div 10 < 10" by simp
    then have "str_of_nat (m div 10) = [char_of (48 + m div 10)]"
      by (subst str_of_nat.simps) simp
    with False show ?thesis
      by (subst str_of_nat.simps) (simp add: decimal_def two_digits_def)
  qed
qed

lemma py_str_decimal: "m < 100 \<Longrightarrow> py_str (int m) = decimal m"
  by (simp add: py_str_def str_of_nat_decimal)

lemma format_02d_two_digits: "v < 100 \<Longrightarrow> format_02d (int v) = two_digits v"
  by (simp add: format_02d_def py_str_decimal decimal_def two_digits_def char_of_48)

lemma groups_digits:
  assumes "hh_mm_at s i \<or> h_mm_at s i"
  shows "py_int (fst (groups_at s i)) = Inr (int (minutes_at s i))"
    and "py_int (snd (groups_at s i)) = Inr (int (seconds_at s i))"
    and "minutes_at s i < 100" and "seconds_at s i < 100"
proof -
  show "py_int (fst (groups_at s i)) = Inr (int (minutes_at s i))"
    using assms
    by (auto simp: groups_at_def minutes_at_def hh_mm_at_def h_mm_at_def py_int_one py_int_two)
  show "py_int (snd (groups_at s i)) = Inr (int (seconds_at s i))"
    using assms
    by (auto simp: groups_at_def seconds_at_def hh_mm_at_def h_mm_at_def py_int_two)
  show "minutes_at s i < 100"
    using assms digit_val_less [of "s ! i"] digit_val_less [of "s ! (i + 1)"]
    by (auto simp: minutes_at_def hh_mm_at_def h_mm_at_def)
  show "seconds_at s i < 100"
    using assms digit_val_less [of "s ! (i + 2)"] digit_val_less [of "s ! (i + 3)"]
      digit_val_less [of "s ! (i + 4)"]
    by (auto simp: seconds_at_def hh_mm_at_def h_mm_at_def)
qed

lemma first_time_at_Some:
  "first_time_at s = Some i \<Longrightarrow> (hh_mm_at s i \<or> h_mm_at s i) \<and> s \<noteq> []"
  by (auto simp: first_time_at_def find_Some_iff)

lemma validate_time_eq_spec: "validate_time s = Inr (spec_validate_time s)"
proof (cases "first_time_at s")
  case None
  then show ?thesis
    by (simp add: validate_time_def spec_validate_time_def re_search_time_at)
next
  case (Some i)
  from first_time_at_Some [OF Some] have at: "hh_mm_at s i \<or> h_mm_at s i" and ne: "s \<noteq> []"
    by simp_all
  obtain g1 g2 where g: "groups_at s i = (g1, g2)" by (cases "groups_at s i")
  from groups_digits [OF at] g
  have g1: "py_int g1 = Inr (int (minutes_at s i))" and g2: "py_int g2 = Inr (int (seconds_at s i))"
    and m: "minutes_at s i < 100" and sec: "seconds_at s i < 100"
    by simp_all
  have "validate_time s =
      (if minutes_at s i \<le> 30 \<and> seconds_at s i \<le> 59
       then Inr (py_str (int (minutes_at s i)) @ '':'' @ format_02d (int (seconds_at s i)))
       else Inr [])"
    using ne Some g g1 g2 by (simp add: validate_time_def re_search_time_at bind_err_Inr)
  also have "\<dots> = Inr (spec_validate_time s)"
    using Some m sec by (simp add: spec_validate_time_def py_str_decimal format_02d_two_digits)
  finally show ?thesis .
qed

text \<open>
  C7. For every string, \<open>_validate_time\<close> returns (it never raises). When the string has no
  \<open>H:MM\<close> or \<open>HH:MM\<close> shape in it, or is empty, the result is the empty string. Otherwise
  the search stops at the first such shape; when its minutes are at most 30 and its
  seconds at most 59 the result is the minutes in decimal, a colon, and the seconds on
  two digits; when they are not, the result is the empty string.
\<close>

theorem validate_time_searches_and_reformats:
  "validate_time s = Inr (spec_validate_time s)"
  by (rule validate_time_eq_spec)

theorem validate_time_searches_and_reformats_witness:
  "validate_time ''Run: 09:05 min'' = Inr ''9:05''
   \<and> validate_time ''45:30 then 9:30'' = Inr []
   \<and> validate_time ''no time'' = Inr []"
proof -
  have a: "spec_validate_time ''Run: 09:05 min'' = ''9:05''" by code_simp
  have b: "spec_validate_time ''45:30 then 9:30'' = []" by code_simp
  have c: "spec_validate_time ''no time'' = []" by code_simp
  from validate_time_searches_and_reformats [of "''Run: 09:05 min''"] a
  have 1: "validate_time ''Run: 09:05 min'' = Inr ''9:05''" by simp
  from validate_time_searches_and_reformats [of "''45:30 then 9:30''"] b
  have 2: "validate_time ''45:30 then 9:30'' = Inr []" by simp
  from validate_time_searches_and_reformats [of "''no time''"] c
  have 3: "validate_time ''no time'' = Inr []" by simp
  from 1 2 3 show ?thesis by (intro conjI)
qed

lemma two_digits_of_digits:
  assumes "is_digit p" and "is_digit q"
  shows "two_digits (10 * digit_val p + digit_val q) = [p, q]"
  using assms digit_val_less [of q] by (simp add: two_digits_def char_of_digit_val)

lemma digit_val_pos: "is_digit a \<Longrightarrow> a \<noteq> CHR ''0'' \<Longrightarrow> 1 \<le> digit_val a"
proof -
  assume d: "is_digit a" and nz: "a \<noteq> CHR ''0''"
  have "digit_val a \<noteq> 0"
  proof
    assume "digit_val a = 0"
    with char_of_digit_val [OF d] have "a = char_of (48::nat)" by simp
    with nz show False by (simp add: char_of_48)
  qed
  then show ?thesis by simp
qed

lemma spec_validate_time_normalized:
  assumes "normalized_time x"
  shows "spec_validate_time x = x"
proof -
  from assms consider
    (short) a p q where "x = [a, CHR '':'', p, q]" "is_digit a" "is_digit p" "is_digit q"
      "10 * digit_val p + digit_val q \<le> 59"
  | (long) a b p q where "x = [a, b, CHR '':'', p, q]" "is_digit a" "a \<noteq> CHR ''0''" "is_digit b"
      "is_digit p" "is_digit q" "10 * digit_val a + digit_val b \<le> 30"
      "10 * digit_val p + digit_val q \<le> 59"
    by (auto simp: normalized_time_def split: list.splits)
  then show ?thesis
  proof cases
    case short
    have nc: "\<not> hh_mm_at x 0" using short by (simp add: hh_mm_at_def)
    have h: "h_mm_at x 0" using short by (simp add: h_mm_at_def)
    from h have f: "first_time_at x = Some 0"
      using short by (simp add: first_time_at_def upt_conv_Cons)
    have m: "minutes_at x 0 = digit_val a" using nc short by (simp add: minutes_at_def)
    have s: "seconds_at x 0 = 10 * digit_val p + digit_val q"
      using nc short by (simp add: seconds_at_def)
    from digit_val_less [OF short(2)] have "decimal (digit_val a) = [a]"
      by (simp add: decimal_def char_of_digit_val short)
    moreover from digit_val_less [OF short(2)] have "digit_val a \<le> 30" by simp
    ultimately show ?thesis
      using f m s short(1,5) two_digits_of_digits [OF short(3) short(4)]
      by (simp add: spec_validate_time_def)
  next
    case long
    have h: "hh_mm_at x 0" using long by (simp add: hh_mm_at_def)
    then have f: "first_time_at x = Some 0"
      using long by (simp add: first_time_at_def upt_conv_Cons)
    have m: "minutes_at x 0 = 10 * digit_val a + digit_val b" using h long by (simp add: minutes_at_def)
    have s: "seconds_at x 0 = 10 * digit_val p + digit_val q"
      using h long by (simp add: seconds_at_def)
    from digit_val_pos [OF long(2) long(3)]
    have "decimal (10 * digit_val a + digit_val b) = two_digits (10 * digit_val a + digit_val b)"
      by (simp add: decimal_def)
    also have "\<dots> = [a, b]" by (rule two_digits_of_digits [OF long(2) long(4)])
    finally have d: "decimal (10 * digit_val a + digit_val b) = [a, b]" .
    from f m s long d two_digits_of_digits [OF long(5) long(6)] show ?thesis
      by (simp add: spec_validate_time_def)
  qed
qed

lemma normalized_decimal_two_digits:
  assumes "m \<le> 30" and "v \<le> 59"
  shows "normalized_time (decimal m @ '':'' @ two_digits v)"
proof (cases "m < 10")
  case True
  with assms show ?thesis
    by (simp add: normalized_time_def decimal_def two_digits_def is_digit_char_of
        digit_val_char_of)
next
  case False
  with assms have "m div 10 < 10" "1 \<le> m div 10" by simp_all
  then have nz: "char_of (48 + m div 10) \<noteq> CHR ''0''"
    using digit_val_char_of [of "m div 10"] by (auto simp: digit_val_zero)
  with False assms show ?thesis
    by (simp add: normalized_time_def decimal_def two_digits_def is_digit_char_of
        digit_val_char_of)
qed

lemma spec_validate_time_output:
  assumes "spec_validate_time s \<noteq> []"
  shows "normalized_time (spec_validate_time s)"
proof (cases "first_time_at s")
  case None
  with assms show ?thesis by (simp add: spec_validate_time_def)
next
  case (Some i)
  with assms have r: "minutes_at s i \<le> 30" "seconds_at s i \<le> 59"
    by (auto simp: spec_validate_time_def split: if_splits)
  with Some have "spec_validate_time s
      = decimal (minutes_at s i) @ '':'' @ two_digits (seconds_at s i)"
    by (simp add: spec_validate_time_def)
  with normalized_decimal_two_digits [OF r] show ?thesis by simp
qed

lemma normalized_time_iff: "normalized_time x \<longleftrightarrow> in_range_time x \<and> \<not> leading_zero x"
  by (auto simp: normalized_time_def in_range_time_def leading_zero_def split: list.splits)

lemma in_range_time_nonempty: "in_range_time x \<Longrightarrow> x \<noteq> []"
  by (auto simp: in_range_time_def)

lemma spec_validate_time_leading_zero:
  assumes "in_range_time x" and "leading_zero x"
  shows "spec_validate_time x = tl x"
proof -
  from assms obtain b p q where x: "x = [CHR ''0'', b, CHR '':'', p, q]"
    and d: "is_digit b" "is_digit p" "is_digit q"
    and r: "10 * digit_val p + digit_val q \<le> 59"
    by (auto simp: in_range_time_def leading_zero_def split: list.splits)
  have z: "is_digit (CHR ''0'')" by (simp add: is_digit_def)
  have h: "hh_mm_at x 0" using x d z by (simp add: hh_mm_at_def)
  then have f: "first_time_at x = Some 0"
    using x by (simp add: first_time_at_def upt_conv_Cons)
  have m: "minutes_at x 0 = digit_val b"
    using h x by (simp add: minutes_at_def digit_val_zero)
  have s: "seconds_at x 0 = 10 * digit_val p + digit_val q"
    using h x by (simp add: seconds_at_def)
  from digit_val_less [OF d(1)] have dec: "decimal (digit_val b) = [b]"
    by (simp add: decimal_def char_of_digit_val d)
  from digit_val_less [OF d(1)] have le: "digit_val b \<le> 30" by simp
  from f m s r dec le two_digits_of_digits [OF d(2) d(3)] x show ?thesis
    by (simp add: spec_validate_time_def)
qed

lemma tl_differs: "x \<noteq> [] \<Longrightarrow> tl x \<noteq> x"
  by (cases x) auto

text \<open>
  C8, as stated, fails: \<open>05:30\<close> is a string \<open>MM:SS\<close> with minutes at most 30 and seconds at
  most 59, and \<open>_validate_time\<close> returns \<open>5:30\<close>, because it formats the minutes as a number.
\<close>

theorem validate_time_round_trip_counterexample:
  "in_range_time ''05:30'' \<and> spec_run_time_ok ''05:30''
   \<and> validate_time ''05:30'' = Inr ''5:30''
   \<and> validate_time ''05:30'' \<noteq> Inr ''05:30''"
  by code_simp

text \<open>
  C8, amended. On a string \<open>M:SS\<close> or \<open>MM:SS\<close> of decimal digits with minutes at most 30
  and seconds at most 59, \<open>_validate_time\<close> returns the string unchanged exactly when it
  has no leading zero on two digits of minutes; when it has one, the result is the string
  without that zero. Every result of \<open>_validate_time\<close> is returned unchanged when given
  back to it, and every non-empty result is an in-range string with no leading zero.
\<close>

theorem validate_time_round_trip:
  "(in_range_time x \<longrightarrow> (validate_time x = Inr x \<longleftrightarrow> \<not> leading_zero x))
   \<and> (in_range_time x \<and> leading_zero x \<longrightarrow> validate_time x = Inr (tl x))
   \<and> (validate_time s = Inr r \<longrightarrow> validate_time r = Inr r)
   \<and> (validate_time s = Inr r \<and> r \<noteq> [] \<longrightarrow> in_range_time r \<and> \<not> leading_zero r)"
proof (intro conjI impI)
  assume i: "in_range_time x"
  show "validate_time x = Inr x \<longleftrightarrow> \<not> leading_zero x"
  proof
    assume fixed: "validate_time x = Inr x"
    show "\<not> leading_zero x"
    proof
      assume "leading_zero x"
      with i have "spec_validate_time x = tl x" by (rule spec_validate_time_leading_zero)
      with fixed have "tl x = x" by (simp add: validate_time_eq_spec)
      with tl_differs [OF in_range_time_nonempty [OF i]] show False by simp
    qed
  next
    assume "\<not> leading_zero x"
    with i have "normalized_time x" by (simp add: normalized_time_iff)
    then show "validate_time x = Inr x"
      by (simp add: validate_time_eq_spec spec_validate_time_normalized)
  qed
next
  assume "in_range_time x \<and> leading_zero x"
  then show "validate_time x = Inr (tl x)"
    by (simp add: validate_time_eq_spec spec_validate_time_leading_zero)
next
  assume "validate_time s = Inr r"
  then have r: "r = spec_validate_time s"
    by (simp add: validate_time_eq_spec)
  show "validate_time r = Inr r"
  proof (cases "r = []")
    case True
    then show ?thesis by (simp add: validate_time_def)
  next
    case False
    with r spec_validate_time_output [of s] have "normalized_time r" by simp
    then show ?thesis
      by (simp add: validate_time_eq_spec spec_validate_time_normalized)
  qed
next
  assume "validate_time s = Inr r \<and> r \<noteq> []"
  then have "r = spec_validate_time s" and "r \<noteq> []"
    by (simp_all add: validate_time_eq_spec)
  then have "normalized_time r"
    using spec_validate_time_output [of s] by simp
  then show "in_range_time r" and "\<not> leading_zero r"
    by (simp_all add: normalized_time_iff)
qed

theorem validate_time_round_trip_witness:
  "in_range_time ''30:59'' \<and> \<not> leading_zero ''30:59'' \<and> validate_time ''30:59'' = Inr ''30:59''
   \<and> in_range_time ''05:30'' \<and> leading_zero ''05:30'' \<and> validate_time ''05:30'' = Inr ''5:30''
   \<and> validate_time ''Run: 09:05 min'' = Inr ''9:05'' \<and> validate_time ''9:05'' = Inr ''9:05''
   \<and> in_range_time ''9:05''"
proof -
  have a: "in_range_time ''30:59''" by code_simp
  have b: "\<not> leading_zero ''30:59''" by code_simp
  have c: "in_range_time ''05:30''" by code_simp
  have d: "leading_zero ''05:30''" by code_simp
  have e: "validate_time ''Run: 09:05 min'' = Inr ''9:05''" by code_simp
  have ne: "''9:05'' \<noteq> []" by simp
  note t1 = validate_time_round_trip [where x = "''30:59''"]
  note t2 = validate_time_round_trip [where x = "''05:30''"]
  note t3 = validate_time_round_trip [where s = "''Run: 09:05 min''" and r = "''9:05''"]
  from t1 a b have 1: "validate_time ''30:59'' = Inr ''30:59''" by blast
  from t2 c d have "validate_time ''05:30'' = Inr (tl ''05:30'')" by blast
  then have 2: "validate_time ''05:30'' = Inr ''5:30''" by simp
  from t3 e have 3: "validate_time ''9:05'' = Inr ''9:05''" by blast
  from t3 e ne have 4: "in_range_time ''9:05''" by blast
  from a b 1 c d 2 e 3 4 show ?thesis by (intro conjI)
qed

section \<open>The Spatial Extractor alone\<close>

lemma spatial_example:
  "sp_soldiers (extract_soldiers_by_regions [example_page]) =
     replicate 11 \<lparr> name = ''JOHN TAN'', sit_up_reps = 0, push_up_reps = 0, run_time = [] \<rparr>"
  by code_simp

text \<open>
  C10. The Spatial Extractor has no cap and no test of the names it has found: on a page
  with eleven serial numbers, each followed by the same name, it returns eleven records
  with one name.
\<close>

theorem spatial_extractor_no_cap_no_dedup:
  "\<exists>pages :: (int \<times> int) list text_item list list.
     length (sp_soldiers (extract_soldiers_by_regions pages)) > 10
     \<and> \<not> distinct (map name (sp_soldiers (extract_soldiers_by_regions pages)))"
proof (rule exI [of _ "[example_page]"])
  show "length (sp_soldiers (extract_soldiers_by_regions [example_page])) > 10
     \<and> \<not> distinct (map name (sp_soldiers (extract_soldiers_by_regions [example_page])))"
    unfolding spatial_example by code_simp
qed

end
